theory Spec2Isabelle
  imports Complex_Main
begin

section \<open>Python values, errors and pandas containers\<close>

text \<open>
  Every \<^verbatim>\<open>raise\<close> of the source, and every exception raised by numpy or pandas on the
  paths modelled here, is a constructor of \<open>error\<close>. A function that can raise returns
  \<open>error + 'a\<close> with \<open>Inl\<close> for the exception.
\<close>

datatype error =
    YNotSeries                 \<comment> \<open>\<^verbatim>\<open>`y` must be a pandas Series.\<close>\<close>
  | YMissingValues             \<comment> \<open>\<^verbatim>\<open>`y` has missing values.\<close>\<close>
  | LastWindowNotSeries        \<comment> \<open>\<^verbatim>\<open>`last_window` must be a pandas Series.\<close>\<close>
  | LastWindowMissingValues    \<comment> \<open>\<^verbatim>\<open>`last_window` has missing values.\<close>\<close>
  | LastWindowTooShort         \<comment> \<open>\<^verbatim>\<open>`last_window` must have as many values as ...\<close>\<close>
  | ExogNotPandas              \<comment> \<open>\<^verbatim>\<open>`exog` must be `pd.Series` or `pd.DataFrame`.\<close>\<close>
  | ExogTypeMismatch           \<comment> \<open>\<^verbatim>\<open>Expected type of `exog` is ...\<close>\<close>
  | ExogMissingColumns         \<comment> \<open>\<^verbatim>\<open>Missing columns in `exog`\<close>\<close>
  | ExogLengthMismatch         \<comment> \<open>\<^verbatim>\<open>`exog` must have same number of samples as `y`.\<close>\<close>
  | ExogIndexMisaligned        \<comment> \<open>\<^verbatim>\<open>`y` and `exog` must have same index.\<close>\<close>
  | ExogRequired               \<comment> \<open>\<^verbatim>\<open>Forecaster trained with exogenous variable/s.\<close>\<close>
  | ExogNotAllowed             \<comment> \<open>\<^verbatim>\<open>Forecaster trained without exogenous variable/s.\<close>\<close>
  | ExogTooShort               \<comment> \<open>\<^verbatim>\<open>`exog` must have at least as many values as `steps`\<close>\<close>
  | NotFitted                  \<comment> \<open>\<^verbatim>\<open>This Forecaster instance is not fitted yet.\<close>\<close>
  | StepsLessThanOne           \<comment> \<open>\<^verbatim>\<open>`steps` must be integer greater than 0.\<close>\<close>
  | OutSampleResidualsEmpty    \<comment> \<open>\<^verbatim>\<open>out_sample_residuals is empty.\<close>\<close>
  | LagsLessThanOne            \<comment> \<open>\<^verbatim>\<open>min value of lags allowed is 1\<close>\<close>
  | LagsBadType                \<comment> \<open>\<^verbatim>\<open>`lags` argument must be `int`, `1D np.ndarray`, ...\<close>\<close>
  | ResidualsNotArray          \<comment> \<open>\<^verbatim>\<open>`residuals` argument must be `1D np.ndarray`.\<close>\<close>
  | SplitYBadType              \<comment> \<open>\<^verbatim>\<open>`y` must be `1D np.ndarray` o `pd.Series`.\<close>\<close>
  | InitialTrainSizeTooLarge   \<comment> \<open>\<^verbatim>\<open>`initial_train_size` must be smaller than lenght of `y`.\<close>\<close>
  | ValueError | TypeError | IndexError | AttributeError | UnboundLocalError | ZeroDivisionError

text \<open>
  A float of a numpy array or pandas Series is a real number or the missing value NaN,
  which is \<open>None\<close>. Arithmetic propagates NaN. It is the arithmetic of the real numbers:
  the rounding of floating-point operations and the infinite values are not modelled.
\<close>

type_synonym val = "real option"


definition val_sub :: "val \<Rightarrow> val \<Rightarrow> val" where
  "val_sub a b = (case a of None \<Rightarrow> None | Some x \<Rightarrow> (case b of None \<Rightarrow> None | Some y \<Rightarrow> Some (x - y)))"

text \<open>
  A pandas index. \<open>RangeIndex a b\<close> is \<^verbatim>\<open>pd.RangeIndex(start=a, stop=b, step=1)\<close>.
  \<open>DatetimeIndex ts fr\<close> holds its time stamps (as integers on a time axis) and its
  frequency (\<open>None\<close> when the index has none; otherwise the uniform step). \<open>OtherIndex ls\<close>
  is an index of any other type, with its labels.
\<close>

datatype index =
    RangeIndex int int
  | DatetimeIndex "int list" "int option"
  | OtherIndex "int list"

datatype index_type = RangeIndexT | DatetimeIndexT | OtherIndexT

fun type_of_index :: "index \<Rightarrow> index_type" where
  "type_of_index (RangeIndex a b) = RangeIndexT"
| "type_of_index (DatetimeIndex ts fr) = DatetimeIndexT"
| "type_of_index (OtherIndex ls) = OtherIndexT"

datatype label = IntLabel int | TimeLabel int

fun index_labels :: "index \<Rightarrow> label list" where
  "index_labels (RangeIndex a b) = map IntLabel [a..b - 1]"
| "index_labels (DatetimeIndex ts fr) = map TimeLabel ts"
| "index_labels (OtherIndex ls) = map IntLabel ls"

record series =
  s_values :: "val list"
  s_index :: index

datatype col_name = lag int | named string

record frame =
  f_columns :: "col_name list"
  f_rows :: "val list list"
  f_index :: index

text \<open>
  An argument of dynamic type: a pandas Series, a pandas DataFrame, a one-dimensional numpy
  array, a numpy array of another dimension, or an object of any other type.
\<close>

datatype pyobj =
    Series series
  | DataFrame frame
  | NdArray "val list"
  | NdMatrix "val list list"
  | OtherObj

text \<open>A pandas Series has one index label per value.\<close>

definition series_ok :: "series \<Rightarrow> bool" where
  "series_ok s = (length (index_labels (s_index s)) = length (s_values s))"

subsection \<open>Python indexing and slicing\<close>

text \<open>Start position of the slice \<^verbatim>\<open>xs[k:]\<close> in a sequence of length \<open>n\<close>.\<close>

definition slice_pos :: "int \<Rightarrow> nat \<Rightarrow> nat" where
  "slice_pos k n = (if k < 0 then nat (max 0 (int n + k)) else min (nat k) n)"

definition slice_from :: "'a list \<Rightarrow> int \<Rightarrow> 'a list" where
  "slice_from xs k = drop (slice_pos k (length xs)) xs"

text \<open>\<^verbatim>\<open>a[i]\<close> for an integer \<open>i\<close>: negative positions count from the end, a position out of
  range raises IndexError.\<close>

definition py_get :: "'a list \<Rightarrow> int \<Rightarrow> error + 'a" where
  "py_get xs i =
     (if 0 \<le> i \<and> i < int (length xs) then Inr (xs ! nat i)
      else if i < 0 \<and> - int (length xs) \<le> i then Inr (xs ! nat (int (length xs) + i))
      else Inl IndexError)"

text \<open>\<^verbatim>\<open>a[idx]\<close> for an integer array \<open>idx\<close> (numpy fancy indexing, \<^verbatim>\<open>.iloc\<close> with a list of
  positions): a new array with the selected elements.\<close>

fun py_take :: "'a list \<Rightarrow> int list \<Rightarrow> error + 'a list" where
  "py_take xs [] = Inr []"
| "py_take xs (i # is) =
     (case py_get xs i of
        Inl e \<Rightarrow> Inl e
      | Inr v \<Rightarrow> (case py_take xs is of Inl e \<Rightarrow> Inl e | Inr vs \<Rightarrow> Inr (v # vs)))"

section \<open>\<^verbatim>\<open>model_selection.time_series_spliter\<close>\<close>

text \<open>
  \<^verbatim>\<open>range(a, b)\<close> is the pair \<open>(a, b)\<close>; \<^verbatim>\<open>range(b)\<close> is \<open>(0, b)\<close>. A fold is a pair
  (train indices, test indices).
\<close>

type_synonym pyrange = "int \<times> int"

definition range_len :: "pyrange \<Rightarrow> nat" where
  "range_len r = nat (snd r - fst r)"

type_synonym fold = "pyrange \<times> pyrange"

text \<open>
  The body of \<^verbatim>\<open>for i in range(folds)\<close>: the list is the remaining values of \<open>i\<close>; the
  yielded folds are collected in order; \<^verbatim>\<open>break\<close> ends the list.
\<close>

fun spliter_loop :: "int \<Rightarrow> int \<Rightarrow> int \<Rightarrow> int \<Rightarrow> int \<Rightarrow> bool \<Rightarrow> nat list \<Rightarrow> fold list" where
  "spliter_loop n its steps folds remainder allow [] = []"
| "spliter_loop n its steps folds remainder allow (i # is) =
     (if int i < folds - 1 then
        (let train_end = its + int i * steps
         in ((0, train_end), (train_end, train_end + steps))
            # spliter_loop n its steps folds remainder allow is)
      else if remainder \<noteq> 0 \<and> allow then
        (let train_end = its + int i * steps
         in ((0, train_end), (train_end, n))
            # spliter_loop n its steps folds remainder allow is)
      else [])"

text \<open>
  \<^verbatim>\<open>time_series_spliter(y, initial_train_size, steps, allow_incomplete_fold, verbose)\<close>.
  The generator is modelled by the list of the folds it yields, or the exception its
  first \<^verbatim>\<open>next\<close> raises. The messages printed under \<^verbatim>\<open>verbose\<close> do not change any value
  and are left out. Python's \<^verbatim>\<open>//\<close> and \<^verbatim>\<open>%\<close> on integers are \<open>div\<close> and \<open>mod\<close> on \<open>int\<close>
  (both round towards minus infinity), except that a zero divisor raises.
\<close>

definition time_series_spliter :: "pyobj \<Rightarrow> int \<Rightarrow> int \<Rightarrow> bool \<Rightarrow> error + fold list" where
  "time_series_spliter y initial_train_size steps allow_incomplete_fold =
     (case (case y of Series s \<Rightarrow> Inr (length (s_values s))
                    | NdArray a \<Rightarrow> Inr (length a)
                    | _ \<Rightarrow> Inl SplitYBadType) of
        Inl e \<Rightarrow> Inl e
      | Inr len_y \<Rightarrow>
          if initial_train_size > int len_y then Inl InitialTrainSizeTooLarge
          else if steps = 0 then Inl ZeroDivisionError
          else
            (let folds = (int len_y - initial_train_size) div steps + 1;
                 remainder = (int len_y - initial_train_size) mod steps
             in if folds = 1 then Inr []
                else Inr (spliter_loop (int len_y) initial_train_size steps folds remainder
                            allow_incomplete_fold [0..<nat folds])))"

section \<open>\<^verbatim>\<open>ForecasterAutoreg\<close>: the object\<close>

text \<open>
  The wrapped regressor is an external object with the two methods \<^verbatim>\<open>fit(X, y)\<close> and
  \<^verbatim>\<open>predict(X)\<close>: its state \<open>r_state\<close> with its method table. \<^verbatim>\<open>fit\<close> returns the new
  state of the regressor; \<^verbatim>\<open>predict\<close> of a matrix predicts every row on its own, and the
  prediction of a row is a number. The regressor is outside the program under study: an
  exception raised inside its \<^verbatim>\<open>predict\<close> (on a row of another width than the one it was
  trained on, or on an infinite value) is not modelled, and a property below that says
  that a call returns is a property of the calls in which the regressor returns.
\<close>

record 'r regressor =
  r_state :: 'r
  r_fit :: "'r \<Rightarrow> val list list \<Rightarrow> val list \<Rightarrow> 'r"
  r_predict :: "'r \<Rightarrow> val list \<Rightarrow> real"

definition regressor_fit :: "'r regressor \<Rightarrow> val list list \<Rightarrow> val list \<Rightarrow> 'r regressor" where
  "regressor_fit reg X y = reg\<lparr>r_state := r_fit reg (r_state reg) X y\<rparr>"

definition regressor_predict :: "'r regressor \<Rightarrow> val list \<Rightarrow> val" where
  "regressor_predict reg row = Some (r_predict reg (r_state reg) row)"

datatype exog_kind = SeriesT | DataFrameT

text \<open>The attributes of a \<^verbatim>\<open>ForecasterAutoreg\<close>; Python's \<^verbatim>\<open>None\<close> is \<open>None\<close>.\<close>

record 'r forecaster =
  regressor :: "'r regressor"
  lags :: "int list"
  max_lag :: int
  window_size :: int
  y_index_type :: "index_type option"
  y_index_freq :: "int option"
  training_range :: "(label \<times> label) option"
  last_window :: "series option"
  included_exog :: bool
  exog_type :: "exog_kind option"
  exog_col_names :: "col_name list option"
  in_sample_residuals :: "val list option"
  out_sample_residuals :: "val list option"
  fitted :: bool

subsection \<open>\<^verbatim>\<open>__init__\<close> and \<^verbatim>\<open>set_lags\<close>\<close>

text \<open>The \<^verbatim>\<open>lags\<close> argument: an \<^verbatim>\<open>int\<close>, a \<^verbatim>\<open>list\<close> or \<^verbatim>\<open>range\<close>, a numpy array, or anything
  else.\<close>

datatype lags_arg = LagsInt int | LagsList "int list" | LagsArray "int list" | LagsOther

text \<open>Python's \<^verbatim>\<open>min\<close> and \<^verbatim>\<open>max\<close> of a sequence: ValueError when it is empty.\<close>

fun py_min :: "int list \<Rightarrow> error + int" where
  "py_min [] = Inl ValueError"
| "py_min (x # xs) = Inr (fold min xs x)"

fun py_max :: "int list \<Rightarrow> error + int" where
  "py_max [] = Inl ValueError"
| "py_max (x # xs) = Inr (fold max xs x)"

text \<open>
  The checks and the conversion of \<^verbatim>\<open>lags\<close>, written twice in the source with the same
  text (in \<^verbatim>\<open>__init__\<close> and in \<^verbatim>\<open>set_lags\<close>): the new \<^verbatim>\<open>self.lags\<close> and its \<^verbatim>\<open>max\<close>.
\<close>

definition lags_of_arg :: "lags_arg \<Rightarrow> error + (int list \<times> int)" where
  "lags_of_arg a =
     (case a of
        LagsInt n \<Rightarrow> if n < 1 then Inl LagsLessThanOne else Inr (map (\<lambda>i. i + 1) [0..n - 1], n)
      | LagsOther \<Rightarrow> Inl LagsBadType
      | _ \<Rightarrow>
          (let ls = (case a of LagsList l \<Rightarrow> l | LagsArray l \<Rightarrow> l | _ \<Rightarrow> [])
           in case py_min ls of
                Inl e \<Rightarrow> Inl e
              | Inr m \<Rightarrow>
                  if m < 1 then Inl LagsLessThanOne
                  else (case py_max ls of Inl e \<Rightarrow> Inl e | Inr mx \<Rightarrow> Inr (ls, mx))))"

definition init :: "'r regressor \<Rightarrow> lags_arg \<Rightarrow> error + 'r forecaster" where
  "init reg a =
     (case lags_of_arg a of
        Inl e \<Rightarrow> Inl e
      | Inr (ls, mx) \<Rightarrow>
          Inr \<lparr>regressor = reg, lags = ls, max_lag = mx, window_size = mx,
               y_index_type = None, y_index_freq = None, training_range = None,
               last_window = None, included_exog = False, exog_type = None,
               exog_col_names = None, in_sample_residuals = None,
               out_sample_residuals = None, fitted = False\<rparr>)"

text \<open>\<^verbatim>\<open>set_lags\<close>: every \<^verbatim>\<open>raise\<close> comes before the first assignment, so an exception leaves
  the object as it was.\<close>

definition set_lags :: "'r forecaster \<Rightarrow> lags_arg \<Rightarrow> error + 'r forecaster" where
  "set_lags self a =
     (case lags_of_arg a of
        Inl e \<Rightarrow> Inl e
      | Inr (ls, mx) \<Rightarrow> Inr (self\<lparr>lags := ls, max_lag := mx, window_size := mx\<rparr>))"

subsection \<open>\<^verbatim>\<open>_create_lags\<close> and \<^verbatim>\<open>_create_train_X_y\<close>\<close>

text \<open>\<^verbatim>\<open>index[k:]\<close> for \<open>0 \<le> k\<close>.\<close>

fun index_from :: "index \<Rightarrow> nat \<Rightarrow> index" where
  "index_from (RangeIndex a b) k = RangeIndex (min (a + int k) (max a b)) (max a b)"
| "index_from (DatetimeIndex ts fr) k = DatetimeIndex (drop k ts) fr"
| "index_from (OtherIndex ls) k = OtherIndex (drop k ls)"

text \<open>
  \<^verbatim>\<open>_create_lags(y)\<close>. \<^verbatim>\<open>np.full\<close> raises ValueError on a negative dimension. The
  \<^verbatim>\<open>pd.DataFrame\<close> constructor receives a block of \<^verbatim>\<open>max_lag\<close> columns and one column name
  per element of \<^verbatim>\<open>self.lags\<close>, and raises ValueError when the two numbers differ. The loop
  writes the window \<^verbatim>\<open>y[i : i + max_lag]\<close> into row \<open>i\<close> by position, and \<^verbatim>\<open>y[max_lag + i]\<close>
  into the target. The last statement keeps the columns at the positions
  \<^verbatim>\<open>-self.lags\<close> of the \<^verbatim>\<open>max_lag\<close> columns (IndexError when one is out of range). Names of
  Series are not modelled.
\<close>

definition create_lags :: "'r forecaster \<Rightarrow> series \<Rightarrow> error + (frame \<times> series)" where
  "create_lags self y =
     (let n_splits = int (length (s_values y)) - max_lag self
      in if n_splits < 0 \<or> max_lag self < 0 then Inl ValueError
         else if int (length (lags self)) \<noteq> max_lag self then Inl ValueError
         else
           (let m = nat (max_lag self);
                idx = index_from (s_index y) m;
                columns = map lag (rev (lags self));
                rows = map (\<lambda>i. take m (drop i (s_values y))) [0..<nat n_splits];
                y_data = map (\<lambda>i. s_values y ! (m + i)) [0..<nat n_splits]
            in case py_take [0..<m] (map uminus (lags self)) of
                 Inl e \<Rightarrow> Inl e
               | Inr keep \<Rightarrow>
                   Inr (\<lparr>f_columns = map (\<lambda>j. columns ! j) keep,
                         f_rows = map (\<lambda>r. map (\<lambda>j. r ! j) keep) rows,
                         f_index = idx\<rparr>,
                        \<lparr>s_values = y_data, s_index = idx\<rparr>)))"

text \<open>The exogenous data of a call, once it is known to be a Series or a DataFrame: a
  Series is a table of one column.\<close>

fun exog_rows :: "pyobj \<Rightarrow> val list list" where
  "exog_rows (Series s) = map (\<lambda>v. [v]) (s_values s)"
| "exog_rows (DataFrame d) = f_rows d"
| "exog_rows _ = []"

fun exog_columns :: "pyobj \<Rightarrow> col_name list" where
  "exog_columns (Series s) = [named []]"
| "exog_columns (DataFrame d) = f_columns d"
| "exog_columns _ = []"

fun exog_index :: "pyobj \<Rightarrow> index" where
  "exog_index (Series s) = s_index s"
| "exog_index (DataFrame d) = f_index d"
| "exog_index _ = OtherIndex []"

text \<open>
  \<^verbatim>\<open>pd.concat([X_train, exog.iloc[max_lag:, ]], axis=1, join='inner')\<close>: the rows of
  \<open>X_train\<close> whose label is a label of the second table, each followed by the values of the
  second table at that label (labels are unique in a \<open>RangeIndex\<close> and in a
  \<open>DatetimeIndex\<close> with a frequency). The index of the result holds the labels of the
  rows that are kept: the index of \<open>X_train\<close> when all are, else an index of the same kind
  without frequency.
\<close>

fun label_value :: "label \<Rightarrow> int" where
  "label_value (IntLabel i) = i"
| "label_value (TimeLabel t) = t"

definition index_of_kept :: "index \<Rightarrow> label list \<Rightarrow> index" where
  "index_of_kept idx kept =
     (if kept = index_labels idx then idx
      else (case idx of
              DatetimeIndex ts fr \<Rightarrow> DatetimeIndex (map label_value kept) None
            | _ \<Rightarrow> OtherIndex (map label_value kept)))"

definition concat_inner :: "frame \<Rightarrow> col_name list \<Rightarrow> val list list \<Rightarrow> index \<Rightarrow> frame" where
  "concat_inner X cols rows idx =
     (let table = map_of (zip (index_labels idx) rows);
          joined = List.map_filter
                     (\<lambda>(l, r). case table l of None \<Rightarrow> None | Some e \<Rightarrow> Some (l, r @ e))
                     (zip (index_labels (f_index X)) (f_rows X))
      in \<lparr>f_columns = f_columns X @ cols,
          f_rows = map snd joined,
          f_index = index_of_kept (f_index X) (map fst joined)\<rparr>)"

definition create_train_X_y ::
  "'r forecaster \<Rightarrow> series \<Rightarrow> pyobj option \<Rightarrow> error + (frame \<times> series)" where
  "create_train_X_y self y exog =
     (case create_lags self y of
        Inl e \<Rightarrow> Inl e
      | Inr (X_train, y_train) \<Rightarrow>
          (case exog of
             None \<Rightarrow> Inr (X_train, y_train)
           | Some ex \<Rightarrow>
               (let k = slice_pos (max_lag self) (length (exog_rows ex))
                in Inr (concat_inner X_train (exog_columns ex) (drop k (exog_rows ex))
                          (index_from (exog_index ex) k),
                        y_train))))"

subsection \<open>Validation and index normalisation\<close>

text \<open>\<^verbatim>\<open>_check_y\<close> and \<^verbatim>\<open>_check_last_window\<close> raise or return nothing; the model returns the
  argument as the Series it is known to be. Warnings are not modelled.\<close>

definition check_y :: "pyobj \<Rightarrow> error + series" where
  "check_y y =
     (case y of
        Series s \<Rightarrow> if None \<in> set (s_values s) then Inl YMissingValues else Inr s
      | _ \<Rightarrow> Inl YNotSeries)"

definition check_last_window :: "pyobj \<Rightarrow> error + series" where
  "check_last_window lw =
     (case lw of
        Series s \<Rightarrow> if None \<in> set (s_values s) then Inl LastWindowMissingValues else Inr s
      | _ \<Rightarrow> Inl LastWindowNotSeries)"

definition check_exog :: "pyobj \<Rightarrow> exog_kind option \<Rightarrow> col_name list option \<Rightarrow> error + unit" where
  "check_exog exog ref_type ref_col_names =
     (case exog of
        Series s \<Rightarrow>
          if ref_type \<noteq> None \<and> ref_type \<noteq> Some SeriesT then Inl ExogTypeMismatch else Inr ()
      | DataFrame d \<Rightarrow>
          if ref_type \<noteq> None \<and> ref_type \<noteq> Some DataFrameT then Inl ExogTypeMismatch
          else (case ref_col_names of
                  None \<Rightarrow> Inr ()
                | Some ref \<Rightarrow>
                    if set (f_columns d) - set ref \<noteq> {} then Inl ExogMissingColumns else Inr ())
      | _ \<Rightarrow> Inl ExogNotPandas)"

text \<open>The index rule of \<^verbatim>\<open>_preproces_y\<close> and \<^verbatim>\<open>_preproces_exog\<close>: a \<open>DatetimeIndex\<close> with a
  frequency is kept, any other index is replaced by \<^verbatim>\<open>RangeIndex(0, len, 1)\<close>.\<close>

fun preproces_index :: "index \<Rightarrow> nat \<Rightarrow> index" where
  "preproces_index (DatetimeIndex ts (Some fr)) n = DatetimeIndex ts (Some fr)"
| "preproces_index _ n = RangeIndex 0 (int n)"

definition preproces_y :: "series \<Rightarrow> series" where
  "preproces_y y = y\<lparr>s_index := preproces_index (s_index y) (length (s_values y))\<rparr>"

fun preproces_exog :: "pyobj \<Rightarrow> pyobj" where
  "preproces_exog (Series s) = Series (preproces_y s)"
| "preproces_exog (DataFrame d) =
     DataFrame (d\<lparr>f_index := preproces_index (f_index d) (length (f_rows d))\<rparr>)"
| "preproces_exog x = x"

text \<open>\<^verbatim>\<open>len(x)\<close>; an object of another type stands for one that has no length.\<close>

fun py_len :: "pyobj \<Rightarrow> error + nat" where
  "py_len (Series s) = Inr (length (s_values s))"
| "py_len (DataFrame d) = Inr (length (f_rows d))"
| "py_len (NdArray a) = Inr (length a)"
| "py_len (NdMatrix a) = Inr (length a)"
| "py_len OtherObj = Inl TypeError"

text \<open>\<^verbatim>\<open>_check_aligment_y_exog\<close>: \<^verbatim>\<open>(exog.index[:len(y)] == y.index).all()\<close>; the comparison
  of two indexes of different lengths raises ValueError.\<close>

definition check_aligment_y_exog :: "series \<Rightarrow> pyobj option \<Rightarrow> error + unit" where
  "check_aligment_y_exog y exog =
     (case exog of
        None \<Rightarrow> Inr ()
      | Some ex \<Rightarrow>
          (let a = take (length (s_values y)) (index_labels (exog_index ex));
               b = index_labels (s_index y)
           in if length a \<noteq> length b then Inl ValueError
              else if a = b then Inr () else Inl ExogIndexMisaligned))"

text \<open>\<^verbatim>\<open>index[[0, -1]]\<close>: the first and the last label, IndexError on an empty index.\<close>

definition index_first_last :: "index \<Rightarrow> error + (label \<times> label)" where
  "index_first_last idx =
     (case index_labels idx of [] \<Rightarrow> Inl IndexError | l # ls \<Rightarrow> Inr (l, last (l # ls)))"

text \<open>\<^verbatim>\<open>y.index.freqstr\<close> of a \<open>DatetimeIndex\<close>, \<^verbatim>\<open>y.index.step\<close> of a \<open>RangeIndex\<close>.\<close>

fun index_freq :: "index \<Rightarrow> int option" where
  "index_freq (DatetimeIndex ts fr) = fr"
| "index_freq (RangeIndex a b) = Some 1"
| "index_freq (OtherIndex ls) = None"

text \<open>
  \<^verbatim>\<open>_expand_index(index, steps)\<close> for the index of a Series: \<open>steps\<close> new labels after the last
  one. An index that is neither a \<open>DatetimeIndex\<close> nor a \<open>RangeIndex\<close> leaves \<^verbatim>\<open>new_index\<close>
  unassigned; \<^verbatim>\<open>pd.date_range\<close> raises ValueError on a negative number of periods.
\<close>

fun expand_index :: "index \<Rightarrow> int \<Rightarrow> error + index" where
  "expand_index (RangeIndex a b) steps =
     (if a < b then Inr (RangeIndex b (b + steps)) else Inl IndexError)"
| "expand_index (DatetimeIndex ts fr) steps =
     (case ts of
        [] \<Rightarrow> Inl IndexError
      | _ \<Rightarrow> (case fr of
                None \<Rightarrow> Inl TypeError
              | Some f \<Rightarrow>
                  if steps < 0 then Inl ValueError
                  else Inr (DatetimeIndex (map (\<lambda>k. last ts + f * (k + 1)) [0..steps - 1])
                              (Some f))))"
| "expand_index (OtherIndex ls) steps = Inl UnboundLocalError"

subsection \<open>Random sampling\<close>

text \<open>
  \<^verbatim>\<open>np.random.choice(a, size, replace=False)\<close>, called only with \<open>size \<le> len(a)\<close>: \<open>size\<close>
  elements at distinct positions. The random generator is the list \<open>rnd\<close> of its draws:
  each draw picks one of the elements still left.
\<close>

fun random_choice :: "nat list \<Rightarrow> 'a list \<Rightarrow> nat \<Rightarrow> 'a list" where
  "random_choice rnd a 0 = []"
| "random_choice rnd a (Suc k) =
     (if a = [] then []
      else (let j = (case rnd of [] \<Rightarrow> 0 | r # _ \<Rightarrow> r mod length a)
            in a ! j # random_choice (tl rnd) (take j a @ drop (Suc j) a) k))"


subsection \<open>\<^verbatim>\<open>fit\<close>\<close>

text \<open>
  The attributes \<^verbatim>\<open>fit\<close> resets in its first statements, before it looks at its arguments.
\<close>

definition reset :: "'r forecaster \<Rightarrow> 'r forecaster" where
  "reset self =
     self\<lparr>y_index_type := None, y_index_freq := None, last_window := None,
          included_exog := False, exog_type := None, exog_col_names := None,
          in_sample_residuals := None, out_sample_residuals := None, fitted := False,
          training_range := None\<rparr>"

text \<open>The block \<^verbatim>\<open>if exog is not None:\<close> of \<^verbatim>\<open>fit\<close>: the preprocessed \<open>exog\<close> and the object
  after the assignments made so far.\<close>

definition fit_exog ::
  "'r forecaster \<Rightarrow> series \<Rightarrow> pyobj option \<Rightarrow> (error + pyobj option) \<times> 'r forecaster" where
  "fit_exog self y exog =
     (case exog of
        None \<Rightarrow> (Inr None, self)
      | Some ex \<Rightarrow>
          (case py_len ex of
             Inl e \<Rightarrow> (Inl e, self)
           | Inr n \<Rightarrow>
               if n \<noteq> length (s_values y) then (Inl ExogLengthMismatch, self)
               else (case check_exog ex None None of
                       Inl e \<Rightarrow> (Inl e, self)
                     | Inr u \<Rightarrow>
                         (let ex1 = preproces_exog ex;
                              s1 = self\<lparr>exog_type := Some (case ex1 of DataFrame d \<Rightarrow> DataFrameT
                                                             | _ \<Rightarrow> SeriesT),
                                        included_exog := True\<rparr>;
                              s2 = (case ex1 of
                                      DataFrame d \<Rightarrow> s1\<lparr>exog_col_names := Some (f_columns d)\<rparr>
                                    | _ \<Rightarrow> s1)
                          in (Inr (Some ex1), s2)))))"

text \<open>
  \<^verbatim>\<open>fit(y, exog)\<close>. The method assigns attributes as it goes, so an exception leaves the
  object with the assignments made before it: the result is the exception (or \<open>Inr ()\<close>)
  together with the object after the call. \<open>rnd\<close> are the draws of the random generator
  for this call.
\<close>

definition fit ::
  "'r forecaster \<Rightarrow> pyobj \<Rightarrow> pyobj option \<Rightarrow> nat list \<Rightarrow> (error + unit) \<times> 'r forecaster" where
  "fit self y exog rnd =
     (let s0 = reset self
      in case check_y y of
           Inl e \<Rightarrow> (Inl e, s0)
         | Inr yc \<Rightarrow>
             (let y1 = preproces_y yc;
                  s1 = s0\<lparr>y_index_type := Some (type_of_index (s_index y1))\<rparr>
              in case index_first_last (s_index y1) of
                   Inl e \<Rightarrow> (Inl e, s1)
                 | Inr tr \<Rightarrow>
                     (let s2 = s1\<lparr>training_range := Some tr,
                                  y_index_freq := index_freq (s_index y1)\<rparr>
                      in case fit_exog s2 y1 exog of
                           (Inl e, s3) \<Rightarrow> (Inl e, s3)
                         | (Inr exog1, s3) \<Rightarrow>
                             (case check_aligment_y_exog y1 exog1 of
                                Inl e \<Rightarrow> (Inl e, s3)
                              | Inr u \<Rightarrow>
                                  (case create_train_X_y s3 y1 exog1 of
                                     Inl e \<Rightarrow> (Inl e, s3)
                                   | Inr (X_train, y_train) \<Rightarrow>
                                       (let s4 = s3\<lparr>regressor :=
                                                      regressor_fit (regressor s3) (f_rows X_train)
                                                        (s_values y_train),
                                                    fitted := True\<rparr>;
                                            preds = map (regressor_predict (regressor s4))
                                                      (f_rows X_train)
                                        in if length preds \<noteq> length (s_values y_train)
                                           then (Inl ValueError, s4)
                                           else
                                             (let residuals = map2 val_sub (s_values y_train) preds;
                                                  stored = (if length residuals > 1000
                                                            then random_choice rnd residuals 1000
                                                            else residuals);
                                                  k = slice_pos (- max_lag s4)
                                                        (length (s_values y_train))
                                              in (Inr (),
                                                  s4\<lparr>in_sample_residuals := Some stored,
                                                     last_window :=
                                                       Some \<lparr>s_values = drop k (s_values y_train),
                                                             s_index = index_from
                                                               (s_index y_train) k\<rparr>\<rparr>))))))))"

subsection \<open>\<^verbatim>\<open>predict\<close>\<close>

text \<open>
  The recursive loop of \<^verbatim>\<open>predict\<close>: \<open>w\<close> is \<^verbatim>\<open>last_window_values\<close>, \<open>n\<close> the number of
  iterations left; the result is the values written into \<^verbatim>\<open>predictions\<close>.
  \<^verbatim>\<open>last_window_values[-self.lags]\<close> raises IndexError when a lag is out of range.
\<close>

fun predict_loop :: "'r forecaster \<Rightarrow> val list \<Rightarrow> nat \<Rightarrow> error + val list" where
  "predict_loop self w 0 = Inr []"
| "predict_loop self w (Suc n) =
     (case py_take w (map uminus (lags self)) of
        Inl e \<Rightarrow> Inl e
      | Inr X \<Rightarrow>
          (let prediction = regressor_predict (regressor self) X
           in case predict_loop self (slice_from w 1 @ [prediction]) n of
                Inl e \<Rightarrow> Inl e
              | Inr ps \<Rightarrow> Inr (prediction # ps)))"

text \<open>The window \<^verbatim>\<open>predict\<close> starts from: the checked and normalised argument, or the stored
  \<^verbatim>\<open>self.last_window\<close> (reading \<^verbatim>\<open>.index\<close> of \<^verbatim>\<open>None\<close> raises AttributeError).\<close>

definition predict_window :: "'r forecaster \<Rightarrow> pyobj option \<Rightarrow> error + series" where
  "predict_window self lw_arg =
     (case lw_arg of
        Some lw \<Rightarrow>
          (case py_len lw of
             Inl e \<Rightarrow> Inl e
           | Inr n \<Rightarrow>
               if int n < max_lag self then Inl LastWindowTooShort
               else (case check_last_window lw of
                       Inl e \<Rightarrow> Inl e
                     | Inr s \<Rightarrow> Inr (preproces_y s)))
      | None \<Rightarrow>
          (case forecaster.last_window self of
             None \<Rightarrow> Inl AttributeError
           | Some s \<Rightarrow> Inr s))"

text \<open>
  \<^verbatim>\<open>predict(steps, last_window, exog)\<close>. With an \<open>exog\<close> that passes the first checks, the call
  \<^verbatim>\<open>self._check_exog(exog=..., ref_type=..., ref_shape=...)\<close> names a parameter that
  \<^verbatim>\<open>_check_exog\<close> does not have and raises TypeError.
\<close>

definition predict :: "'r forecaster \<Rightarrow> int \<Rightarrow> pyobj option \<Rightarrow> pyobj option \<Rightarrow> error + series" where
  "predict self steps lw_arg exog =
     (if \<not> fitted self then Inl NotFitted
      else if steps < 1 then Inl StepsLessThanOne
      else if exog = None \<and> included_exog self then Inl ExogRequired
      else if exog \<noteq> None \<and> \<not> included_exog self then Inl ExogNotAllowed
      else
        (case exog of
           Some ex \<Rightarrow>
             (case py_len ex of
                Inl e \<Rightarrow> Inl e
              | Inr n \<Rightarrow> if int n < steps then Inl ExogTooShort else Inl TypeError)
         | None \<Rightarrow>
             (case predict_window self lw_arg of
                Inl e \<Rightarrow> Inl e
              | Inr lw \<Rightarrow>
                  (case expand_index (s_index lw) steps of
                     Inl e \<Rightarrow> Inl e
                   | Inr idx \<Rightarrow>
                       (case predict_loop self (s_values lw) (nat steps) of
                          Inl e \<Rightarrow> Inl e
                        | Inr ps \<Rightarrow> Inr \<lparr>s_values = ps, s_index = idx\<rparr>)))))"


subsection \<open>\<^verbatim>\<open>set_out_sample_residuals\<close>\<close>

text \<open>The \<^verbatim>\<open>residuals\<close> argument: a one-dimensional numpy array, or an object that is not a
  numpy array.\<close>

datatype residuals_arg = ResArray "val list" | ResOther

definition set_out_sample_residuals ::
  "'r forecaster \<Rightarrow> residuals_arg \<Rightarrow> bool \<Rightarrow> nat list \<Rightarrow> error + 'r forecaster" where
  "set_out_sample_residuals self residuals app rnd =
     (case residuals of
        ResOther \<Rightarrow> Inl ResidualsNotArray
      | ResArray a \<Rightarrow>
          (let r = (if length a > 1000 then random_choice rnd a 1000 else a)
           in case (if \<not> app then None else out_sample_residuals self) of
                None \<Rightarrow> Inr (self\<lparr>out_sample_residuals := Some r\<rparr>)
              | Some old \<Rightarrow>
                  (let free_space = max 0 (1000 - int (length old))
                   in if int (length r) < free_space
                      then Inr (self\<lparr>out_sample_residuals := Some (old @ r)\<rparr>)
                      else Inr (self\<lparr>out_sample_residuals :=
                                       Some (old @ take (nat free_space) r)\<rparr>))))"

text \<open>A sequence of \<^verbatim>\<open>set_out_sample_residuals\<close> calls, each with its arguments and its
  random draws; a call that raises leaves the object as it was.\<close>

fun set_out_sample_residuals_calls ::
  "'r forecaster \<Rightarrow> (residuals_arg \<times> bool \<times> nat list) list \<Rightarrow> 'r forecaster" where
  "set_out_sample_residuals_calls self [] = self"
| "set_out_sample_residuals_calls self ((res, app, rnd) # cs) =
     (case set_out_sample_residuals self res app rnd of
        Inl e \<Rightarrow> set_out_sample_residuals_calls self cs
      | Inr self' \<Rightarrow> set_out_sample_residuals_calls self' cs)"

text \<open>\<^verbatim>\<open>len\<close> of a residual attribute; \<^verbatim>\<open>None\<close> holds no residual.\<close>

definition residuals_len :: "val list option \<Rightarrow> nat" where
  "residuals_len r = (case r of None \<Rightarrow> 0 | Some a \<Rightarrow> length a)"

section \<open>\<^verbatim>\<open>predict\<close> on a store of arrays\<close>

text \<open>
  To see which arrays \<^verbatim>\<open>predict\<close> writes, the arrays are placed in a store: a list of
  buffers, the address of a buffer being its position. A new array takes the next position.
  A Series object refers to the buffer of its values; \<^verbatim>\<open>to_numpy()\<close> returns that buffer, not
  a copy. The array attributes of the forecaster are references into the store.
\<close>

type_synonym addr = nat

type_synonym store = "val list list"

definition alloc :: "store \<Rightarrow> val list \<Rightarrow> addr \<times> store" where
  "alloc h b = (length h, h @ [b])"

record series_ref =
  r_buf :: addr
  r_index :: index

record object_refs =
  last_window_ref :: "series_ref option"
  in_sample_ref :: "addr option"
  out_sample_ref :: "addr option"

text \<open>The Series a reference denotes in a store.\<close>

definition deref :: "store \<Rightarrow> series_ref \<Rightarrow> series" where
  "deref h r = \<lparr>s_values = h ! r_buf r, s_index = r_index r\<rparr>"

text \<open>
  \<open>in_store h refs self\<close>: the references are addresses of the store \<open>h\<close>, and the arrays found
  there are the last window and the residual collections of \<open>self\<close>.
\<close>

definition in_store :: "store \<Rightarrow> object_refs \<Rightarrow> 'r forecaster \<Rightarrow> bool" where
  "in_store h refs self =
     ((case last_window_ref refs of
         None \<Rightarrow> last_window self = None
       | Some r \<Rightarrow> r_buf r < length h \<and> last_window self = Some (deref h r))
      \<and> (case in_sample_ref refs of
            None \<Rightarrow> in_sample_residuals self = None
          | Some a \<Rightarrow> a < length h \<and> in_sample_residuals self = Some (h ! a))
      \<and> (case out_sample_ref refs of
            None \<Rightarrow> out_sample_residuals self = None
          | Some a \<Rightarrow> a < length h \<and> out_sample_residuals self = Some (h ! a)))"

text \<open>\<^verbatim>\<open>_preproces_y\<close>: the same object when the index is kept, else a copy (\<^verbatim>\<open>y.copy()\<close>) with
  the new index.\<close>

definition preproces_y_st :: "series_ref \<Rightarrow> store \<Rightarrow> series_ref \<times> store" where
  "preproces_y_st r h =
     (case r_index r of
        DatetimeIndex ts (Some fr) \<Rightarrow> (r, h)
      | _ \<Rightarrow>
          (let (a, h1) = alloc h (h ! r_buf r)
           in (\<lparr>r_buf = a, r_index = RangeIndex 0 (int (length (h ! r_buf r)))\<rparr>, h1)))"

text \<open>The window of the call: the supplied Series after its checks, or the stored one.\<close>

definition predict_window_st ::
  "'r forecaster \<Rightarrow> object_refs \<Rightarrow> series_ref option \<Rightarrow> store \<Rightarrow> (error + series_ref) \<times> store" where
  "predict_window_st self refs lw_arg h =
     (case lw_arg of
        Some r \<Rightarrow>
          if int (length (h ! r_buf r)) < max_lag self then (Inl LastWindowTooShort, h)
          else if None \<in> set (h ! r_buf r) then (Inl LastWindowMissingValues, h)
          else (let (r1, h1) = preproces_y_st r h in (Inr r1, h1))
      | None \<Rightarrow>
          (case last_window_ref refs of
             None \<Rightarrow> (Inl AttributeError, h)
           | Some r \<Rightarrow> (Inr r, h)))"

text \<open>
  The loop: \<open>pa\<close> is the buffer of \<^verbatim>\<open>predictions\<close>, \<open>wa\<close> that of \<^verbatim>\<open>last_window_values\<close>, \<open>i\<close> the
  loop variable and \<open>n\<close> the number of iterations left; \<open>predict_step_st\<close> is the loop body
  after the features \<open>X\<close> are read, and returns the new \<^verbatim>\<open>last_window_values\<close>. The indexing
  \<^verbatim>\<open>last_window_values[-self.lags]\<close> makes a new array, the regressor returns a new array,
  \<^verbatim>\<open>predictions.iloc[i] = ...\<close> writes into \<open>pa\<close>, and \<^verbatim>\<open>np.append\<close> makes a new array to which
  \<^verbatim>\<open>last_window_values\<close> is rebound.
\<close>

definition predict_step_st ::
  "'r forecaster \<Rightarrow> addr \<Rightarrow> addr \<Rightarrow> nat \<Rightarrow> val list \<Rightarrow> store \<Rightarrow> addr \<times> store" where
  "predict_step_st self pa wa i X h =
     (let (xa, h1) = alloc h X;
          (qa, h2) = alloc h1 [regressor_predict (regressor self) (h1 ! xa)];
          h3 = h2[pa := (h2 ! pa)[i := h2 ! qa ! 0]]
      in alloc h3 (slice_from (h3 ! wa) 1 @ h3 ! qa))"

fun predict_loop_st ::
  "'r forecaster \<Rightarrow> addr \<Rightarrow> addr \<Rightarrow> nat \<Rightarrow> nat \<Rightarrow> store \<Rightarrow> (error + unit) \<times> store" where
  "predict_loop_st self pa wa i 0 h = (Inr (), h)"
| "predict_loop_st self pa wa i (Suc n) h =
     (case py_take (h ! wa) (map uminus (lags self)) of
        Inl e \<Rightarrow> (Inl e, h)
      | Inr X \<Rightarrow>
          (let (wa', h4) = predict_step_st self pa wa i X h
           in predict_loop_st self pa wa' (Suc i) n h4))"

text \<open>
  \<^verbatim>\<open>predict\<close> on the store: the exception or the reference to the returned Series, and the
  store after the call. The method has no assignment to an attribute of \<^verbatim>\<open>self\<close>, so the
  attributes and the references of the object are those before the call; what can change
  is the store.
\<close>

definition predict_st ::
  "'r forecaster \<Rightarrow> object_refs \<Rightarrow> int \<Rightarrow> series_ref option \<Rightarrow> pyobj option \<Rightarrow> store
     \<Rightarrow> (error + series_ref) \<times> store" where
  "predict_st self refs steps lw_arg exog h =
     (if \<not> fitted self then (Inl NotFitted, h)
      else if steps < 1 then (Inl StepsLessThanOne, h)
      else if exog = None \<and> included_exog self then (Inl ExogRequired, h)
      else if exog \<noteq> None \<and> \<not> included_exog self then (Inl ExogNotAllowed, h)
      else
        (case exog of
           Some ex \<Rightarrow>
             (case py_len ex of
                Inl e \<Rightarrow> (Inl e, h)
              | Inr n \<Rightarrow> if int n < steps then (Inl ExogTooShort, h) else (Inl TypeError, h))
         | None \<Rightarrow>
             (case predict_window_st self refs lw_arg h of
                (Inl e, h1) \<Rightarrow> (Inl e, h1)
              | (Inr lw, h1) \<Rightarrow>
                  (let (pa, h2) = alloc h1 (replicate (nat steps) None)
                   in case expand_index (r_index lw) steps of
                        Inl e \<Rightarrow> (Inl e, h2)
                      | Inr idx \<Rightarrow>
                          (case predict_loop_st self pa (r_buf lw) 0 (nat steps) h2 of
                             (Inl e, h3) \<Rightarrow> (Inl e, h3)
                           | (Inr u, h3) \<Rightarrow> (Inr \<lparr>r_buf = pa, r_index = idx\<rparr>, h3))))))"

section \<open>Bootstrap intervals: \<^verbatim>\<open>_estimate_boot_interval\<close> and \<^verbatim>\<open>predict_interval\<close>\<close>













section \<open>Invariant of the lag configuration\<close>

text \<open>What \<^verbatim>\<open>__init__\<close> and \<^verbatim>\<open>set_lags\<close> establish: there is a lag, and every lag lies
  between 1 and \<^verbatim>\<open>max_lag\<close>.\<close>

definition lags_ok :: "'r forecaster \<Rightarrow> bool" where
  "lags_ok self = (lags self \<noteq> [] \<and> (\<forall>l\<in>set (lags self). 1 \<le> l \<and> l \<le> max_lag self))"

section \<open>A concrete regressor\<close>

text \<open>
  A regressor for the concrete runs below: it has no parameters to learn, and it predicts
  the sum of the numbers of the feature row (with the single lag 1: the last observation).
\<close>

fun val_num :: "val \<Rightarrow> real" where
  "val_num None = 0"
| "val_num (Some x) = x"

fun sum_fit :: "unit \<Rightarrow> val list list \<Rightarrow> val list \<Rightarrow> unit" where
  "sum_fit u X y = ()"

fun sum_predict :: "unit \<Rightarrow> val list \<Rightarrow> real" where
  "sum_predict u row = sum_list (map val_num row)"

definition sum_regressor :: "unit regressor" where
  "sum_regressor = \<lparr>r_state = (), r_fit = sum_fit, r_predict = sum_predict\<rparr>"

text \<open>
  A forecaster with the single lag 1 on this regressor, before and after
  \<^verbatim>\<open>fit(y=pd.Series([1., 2., 4.]))\<close>: the target is \<open>[2, 4]\<close>, the regressor predicts
  \<open>[1, 2]\<close> on the training rows, the in-sample residuals are \<open>[1, 2]\<close> and the last window
  is \<open>[4]\<close>.
\<close>

definition demo_series :: series where
  "demo_series = \<lparr>s_values = [Some 1, Some 2, Some 4], s_index = RangeIndex 0 3\<rparr>"

definition demo_unfitted :: "unit forecaster" where
  "demo_unfitted =
     \<lparr>regressor = sum_regressor, lags = [1], max_lag = 1, window_size = 1,
      y_index_type = None, y_index_freq = None, training_range = None,
      last_window = None, included_exog = False, exog_type = None,
      exog_col_names = None, in_sample_residuals = None,
      out_sample_residuals = None, fitted = False\<rparr>"

definition demo_fitted :: "unit forecaster" where
  "demo_fitted =
     \<lparr>regressor = sum_regressor, lags = [1], max_lag = 1, window_size = 1,
      y_index_type = Some RangeIndexT, y_index_freq = Some 1,
      training_range = Some (IntLabel 0, IntLabel 2),
      last_window = Some \<lparr>s_values = [Some 4], s_index = RangeIndex 2 3\<rparr>,
      included_exog = False, exog_type = None, exog_col_names = None,
      in_sample_residuals = Some [Some 1, Some 2],
      out_sample_residuals = None, fitted = True\<rparr>"

text \<open>The forecaster that \<^verbatim>\<open>ForecasterAutoreg(regressor, lags=[1, 3])\<close> constructs.\<close>

definition gap_forecaster :: "unit forecaster" where
  "gap_forecaster =
     \<lparr>regressor = sum_regressor, lags = [1, 3], max_lag = 3, window_size = 3,
      y_index_type = None, y_index_freq = None, training_range = None,
      last_window = None, included_exog = False, exog_type = None,
      exog_col_names = None, in_sample_residuals = None,
      out_sample_residuals = None, fitted = False\<rparr>"

text \<open>The fitted forecaster above with its arrays in a store: the last window at address 0,
  the in-sample residuals at address 1.\<close>

definition demo_store :: store where
  "demo_store = [[Some 4], [Some 1, Some 2]]"

definition demo_refs :: object_refs where
  "demo_refs = \<lparr>last_window_ref = Some \<lparr>r_buf = 0, r_index = RangeIndex 2 3\<rparr>,
                 in_sample_ref = Some 1, out_sample_ref = None\<rparr>"

text \<open>An array of 1000 residuals, all zero.\<close>

definition thousand_zeros :: "val list" where
  "thousand_zeros = replicate 1000 (Some 0)"

section \<open>Closed forms used by the properties\<close>

text \<open>The folds of \<^verbatim>\<open>time_series_spliter\<close> in closed form: \<open>c\<close> complete folds, then the
  incomplete one when it is allowed, the remainder is not zero and a complete fold exists.\<close>

definition spliter_result :: "int \<Rightarrow> int \<Rightarrow> int \<Rightarrow> bool \<Rightarrow> fold list" where
  "spliter_result n its steps allow =
     (let c = (n - its) div steps; r = (n - its) mod steps
      in map (\<lambda>i. ((0, its + int i * steps), (its + int i * steps, its + int i * steps + steps)))
           [0..<nat c]
         @ (if allow \<and> r \<noteq> 0 \<and> 1 \<le> c then [((0, its + c * steps), (its + c * steps, n))] else []))"

section \<open>Properties of \<^verbatim>\<open>time_series_spliter\<close>\<close>

lemma spliter_loop_complete:
  "\<forall>i\<in>set is. int i < folds - 1 \<Longrightarrow>
   spliter_loop n its steps folds r allow (is @ rest) =
     map (\<lambda>i. ((0, its + int i * steps), (its + int i * steps, its + int i * steps + steps))) is
     @ spliter_loop n its steps folds r allow rest"
  by (induction "is") (simp_all add: Let_def)

lemma spliter_closed_form:
  assumes y: "y = Series s \<or> y = NdArray (s_values s)"
    and le: "its \<le> int (length (s_values s))" and st: "1 \<le> steps"
  shows "time_series_spliter y its steps allow =
           Inr (spliter_result (int (length (s_values s))) its steps allow)"
proof -
  let ?n = "int (length (s_values s))"
  let ?c = "(?n - its) div steps"
  let ?r = "(?n - its) mod steps"
  have c0: "0 \<le> ?c" using le st by (simp add: pos_imp_zdiv_nonneg_iff)
  show ?thesis
  proof (cases "?c = 0")
    case True
    then show ?thesis using y le st
      by (auto simp: time_series_spliter_def spliter_result_def Let_def)
  next
    case False
    then have c1: "1 \<le> ?c" using c0 by simp
    have up: "[0..<nat (?c + 1)] = [0..<nat ?c] @ [nat ?c]"
      using c0 by (simp add: nat_add_distrib)
    have all: "\<forall>i\<in>set [0..<nat ?c]. int i < (?c + 1) - 1" by auto
    have "spliter_loop ?n its steps (?c + 1) ?r allow [0..<nat (?c + 1)] =
            spliter_result ?n its steps allow"
      unfolding up spliter_loop_complete [OF all]
      using c1 by (simp add: spliter_result_def Let_def)
    then show ?thesis using y le st False
      by (auto simp: time_series_spliter_def Let_def)
  qed
qed

text \<open>
  C5 (as amended). For a series of length \<open>N\<close>, \<open>initial_train_size \<le> N\<close> and \<open>steps \<ge> 1\<close>,
  \<^verbatim>\<open>time_series_spliter\<close> yields its folds in time order: train range \<open>j\<close> is
  \<open>range(initial_train_size + j * steps)\<close>, so it starts at 0 and grows by \<open>steps\<close>; every test
  range starts where its train range stops; the first \<open>(N - initial_train_size) div steps\<close>
  test ranges hold \<open>steps\<close> positions; a last test range shorter than \<open>steps\<close> (it stops at
  \<open>N\<close>) is yielded iff incomplete folds are allowed, the remainder is not zero and at least
  one complete fold exists (\<open>steps \<le> N - initial_train_size\<close>). For \<open>N = 10\<close>,
  \<open>initial_train_size = 5\<close>, \<open>steps = 2\<close> and incomplete folds allowed the folds are
  \<open>(range(5), range(5,7))\<close>, \<open>(range(7), range(7,9))\<close>, \<open>(range(9), range(9,10))\<close>.
\<close>

theorem time_series_spliter_folds:
  assumes y: "y = Series s \<or> y = NdArray (s_values s)"
    and le: "its \<le> int (length (s_values s))" and st: "1 \<le> steps"
  shows "(let n = int (length (s_values s)); c = (n - its) div steps; r = (n - its) mod steps
          in \<exists>fs. time_series_spliter y its steps allow = Inr fs
               \<and> length fs = nat c + (if allow \<and> r \<noteq> 0 \<and> 1 \<le> c then 1 else 0)
               \<and> (\<forall>j<length fs. fst (fs ! j) = (0, its + int j * steps)
                                  \<and> fst (snd (fs ! j)) = its + int j * steps)
               \<and> (\<forall>j<nat c. snd (snd (fs ! j)) = its + int j * steps + steps)
               \<and> (allow \<and> r \<noteq> 0 \<and> 1 \<le> c \<longrightarrow> snd (snd (fs ! nat c)) = n)
               \<and> ((\<exists>f\<in>set fs. range_len (snd f) < nat steps)
                    \<longleftrightarrow> allow \<and> r \<noteq> 0 \<and> steps \<le> n - its))
         \<and> time_series_spliter (NdArray (replicate 10 (Some 0))) 5 2 True =
             Inr [((0, 5), (5, 7)), ((0, 7), (7, 9)), ((0, 9), (9, 10))]"
proof -
  let ?n = "int (length (s_values s))"
  let ?c = "(?n - its) div steps"
  let ?r = "(?n - its) mod steps"
  let ?fs = "spliter_result ?n its steps allow"
  let ?full = "map (\<lambda>i. ((0, its + int i * steps), (its + int i * steps, its + int i * steps + steps)))
                 [0..<nat ?c]"
  have c0: "0 \<le> ?c" using le st by (simp add: pos_imp_zdiv_nonneg_iff)
  have r0: "0 \<le> ?r" and r1: "?r < steps" using st by simp_all
  have split: "?n - (its + ?c * steps) = ?r"
    using minus_div_mult_eq_mod [of "?n - its" steps] by linarith
  have "0 < ?c \<longleftrightarrow> steps \<le> ?n - its"
    using st by (intro pos_imp_zdiv_pos_iff) simp
  then have c1: "1 \<le> ?c \<longleftrightarrow> steps \<le> ?n - its" by linarith
  have fs: "?fs = ?full @ (if allow \<and> ?r \<noteq> 0 \<and> 1 \<le> ?c
                           then [((0, its + ?c * steps), (its + ?c * steps, ?n))] else [])"
    by (simp add: spliter_result_def Let_def)
  have len: "length ?fs = nat ?c + (if allow \<and> ?r \<noteq> 0 \<and> 1 \<le> ?c then 1 else 0)"
    by (simp add: fs)
  have nth_full: "\<And>j. j < nat ?c \<Longrightarrow>
      ?fs ! j = ((0, its + int j * steps), (its + int j * steps, its + int j * steps + steps))"
    by (simp add: fs nth_append)
  have nth_last: "?fs ! nat ?c = ((0, its + ?c * steps), (its + ?c * steps, ?n))"
    if h: "allow \<and> ?r \<noteq> 0 \<and> 1 \<le> ?c"
  proof -
    have "?fs = ?full @ [((0, its + ?c * steps), (its + ?c * steps, ?n))]"
      using h by (subst fs) simp
    then show ?thesis by (simp add: nth_append)
  qed
  have starts: "\<forall>j<length ?fs. fst (?fs ! j) = (0, its + int j * steps)
                  \<and> fst (snd (?fs ! j)) = its + int j * steps"
  proof (intro allI impI)
    fix j assume j: "j < length ?fs"
    show "fst (?fs ! j) = (0, its + int j * steps) \<and> fst (snd (?fs ! j)) = its + int j * steps"
    proof (cases "j < nat ?c")
      case True
      then show ?thesis by (simp add: nth_full)
    next
      case False
      then have "j = nat ?c" and "allow \<and> ?r \<noteq> 0 \<and> 1 \<le> ?c"
        using j len by (auto split: if_splits)
      then show ?thesis using nth_last c0 by simp
    qed
  qed
  have short_len: "range_len (its + ?c * steps, ?n) < nat steps"
    unfolding range_len_def snd_conv fst_conv split using r0 r1 by simp
  have short: "(\<exists>f\<in>set ?fs. range_len (snd f) < nat steps)
                 \<longleftrightarrow> allow \<and> ?r \<noteq> 0 \<and> steps \<le> ?n - its"
    using short_len st c1 by (auto simp: fs range_len_def)
  have ex: "time_series_spliter (NdArray (replicate 10 (Some 0))) 5 2 True =
              Inr [((0, 5), (5, 7)), ((0, 7), (7, 9)), ((0, 9), (9, 10))]"
    by (simp add: time_series_spliter_def Let_def upt_rec)
  have main: "time_series_spliter y its steps allow = Inr ?fs"
    by (rule spliter_closed_form [OF y le st])
  have comp: "\<forall>j<nat ?c. snd (snd (?fs ! j)) = its + int j * steps + steps"
    by (simp add: nth_full)
  have la: "allow \<and> ?r \<noteq> 0 \<and> 1 \<le> ?c \<longrightarrow> snd (snd (?fs ! nat ?c)) = ?n"
    using nth_last by simp
  show ?thesis
    unfolding Let_def
    by (intro conjI exI [of _ ?fs]) (rule main len starts comp la short ex)+
qed

theorem time_series_spliter_folds_witness:
  "time_series_spliter (Series \<lparr>s_values = replicate 7 (Some 1), s_index = RangeIndex 0 7\<rparr>) 2 2 True
     = Inr [((0, 2), (2, 4)), ((0, 4), (4, 6)), ((0, 6), (6, 7))]
   \<and> (2::int) \<le> int (length (replicate 7 (Some (1::real)))) \<and> (1::int) \<le> 2"
proof -
  let ?s = "\<lparr>s_values = replicate 7 (Some (1::real)), s_index = RangeIndex 0 7\<rparr>"
  have a: "Series ?s = Series ?s \<or> Series ?s = NdArray (s_values ?s)" by simp
  have b: "(2::int) \<le> int (length (s_values ?s))" by simp
  have c: "(1::int) \<le> 2" by simp
  from time_series_spliter_folds [OF a b c, of True]
  obtain fs where fs: "time_series_spliter (Series ?s) 2 2 True = Inr fs"
    and len: "length fs = 3"
    and st: "\<forall>j<length fs. fst (fs ! j) = (0, 2 + int j * 2) \<and> fst (snd (fs ! j)) = 2 + int j * 2"
    and comp: "\<forall>j<2. snd (snd (fs ! j)) = 2 + int j * 2 + 2"
    and la: "snd (snd (fs ! 2)) = 7"
    unfolding Let_def by auto
  have "fs = [fs ! 0, fs ! 1, fs ! 2]"
    using len by (auto simp: list_eq_iff_nth_eq nth_Cons' eval_nat_numeral less_Suc_eq)
  moreover have "fs ! 0 = ((0, 2), (2, 4))" using st comp len by (simp add: prod_eq_iff)
  moreover have "fs ! 1 = ((0, 4), (4, 6))" using st comp len by (simp add: prod_eq_iff)
  moreover have "fs ! 2 = ((0, 6), (6, 7))" using st la len by (simp add: prod_eq_iff)
  ultimately have "fs = [((0, 2), (2, 4)), ((0, 4), (4, 6)), ((0, 6), (6, 7))]" by simp
  then show ?thesis using fs by simp
qed

text \<open>
  C5 as stated fails: with \<open>N = 10\<close>, \<open>initial_train_size = 9\<close>, \<open>steps = 2\<close> and incomplete
  folds allowed the remainder is 1, yet no fold is yielded (\<^verbatim>\<open>if folds == 1: return []\<close>).
\<close>

theorem time_series_spliter_no_short_fold_counterexample:
  "time_series_spliter (NdArray (replicate 10 (Some 0))) 9 2 True = Inr []
   \<and> (10 - 9) mod 2 \<noteq> (0::int)"
  by (simp add: time_series_spliter_def Let_def)

section \<open>Properties of \<^verbatim>\<open>set_lags\<close>\<close>

lemma py_min_nonempty:
  assumes "l \<noteq> []"
  shows "py_min l = Inr (Min (set l))"
proof -
  from assms obtain x xs where l: "l = x # xs" by (cases l) auto
  show ?thesis unfolding l by (simp only: py_min.simps Min.set_eq_fold)
qed

lemma py_max_nonempty:
  assumes "l \<noteq> []"
  shows "py_max l = Inr (Max (set l))"
proof -
  from assms obtain x xs where l: "l = x # xs" by (cases l) auto
  show ?thesis unfolding l by (simp only: py_max.simps Max.set_eq_fold)
qed

lemma Min_set_ge: "l \<noteq> [] \<Longrightarrow> (1::int) \<le> Min (set l) \<longleftrightarrow> (\<forall>x\<in>set l. 1 \<le> x)"
  by (rule Min_ge_iff) auto

lemma lags_of_seq:
  assumes a: "a = LagsList l \<or> a = LagsArray l"
  shows "lags_of_arg a =
           (if l = [] then Inl ValueError
            else if \<forall>x\<in>set l. 1 \<le> x then Inr (l, Max (set l)) else Inl LagsLessThanOne)"
proof (cases "l = []")
  case True
  with a show ?thesis by (auto simp: lags_of_arg_def)
next
  case False
  have "lags_of_arg a =
          (if Min (set l) < 1 then Inl LagsLessThanOne else Inr (l, Max (set l)))"
    using a by (auto simp: lags_of_arg_def Let_def py_min_nonempty [OF False]
        py_max_nonempty [OF False])
  moreover have "Min (set l) < 1 \<longleftrightarrow> \<not> (\<forall>x\<in>set l. 1 \<le> x)"
    using Min_set_ge [OF False] by linarith
  ultimately show ?thesis using False by simp
qed

lemma lags_of_int:
  "lags_of_arg (LagsInt n) = (if n < 1 then Inl LagsLessThanOne else Inr ([1..n], n))"
proof -
  have m: "map (\<lambda>i. i + 1) [0..n - 1] = [1..n]"
    by (rule nth_equalityI) auto
  show ?thesis by (simp add: lags_of_arg_def m)
qed

lemma lags_of_arg_Inr:
  assumes "lags_of_arg a = Inr (ls, mx)"
  shows "ls \<noteq> [] \<and> (\<forall>l\<in>set ls. 1 \<le> l) \<and> mx = Max (set ls)
         \<and> ls = (case a of LagsInt n \<Rightarrow> [1..n] | LagsList l \<Rightarrow> l | LagsArray l \<Rightarrow> l | LagsOther \<Rightarrow> [])"
proof (cases a)
  case (LagsInt n)
  from assms LagsInt have n: "1 \<le> n" and ls: "ls = [1..n]" and mx: "mx = n"
    by (auto simp: lags_of_int split: if_splits)
  have "Max (set [1..n]) = n" using n by (intro Max_eqI) auto
  then show ?thesis using n ls mx LagsInt by auto
next
  case (LagsList l)
  then have "a = LagsList l \<or> a = LagsArray l" by simp
  from lags_of_seq [OF this] assms LagsList show ?thesis
    by (auto split: if_splits)
next
  case (LagsArray l)
  then have "a = LagsList l \<or> a = LagsArray l" by simp
  from lags_of_seq [OF this] assms LagsArray show ?thesis
    by (auto split: if_splits)
next
  case LagsOther
  with assms show ?thesis by (simp add: lags_of_arg_def)
qed

lemma lags_of_arg_valid:
  assumes "case a of LagsInt n \<Rightarrow> 1 \<le> n
                   | LagsList l \<Rightarrow> l \<noteq> [] \<and> (\<forall>x\<in>set l. 1 \<le> x)
                   | LagsArray l \<Rightarrow> l \<noteq> [] \<and> (\<forall>x\<in>set l. 1 \<le> x)
                   | LagsOther \<Rightarrow> False"
  shows "\<exists>ls mx. lags_of_arg a = Inr (ls, mx)"
proof (cases a)
  case (LagsInt n)
  with assms show ?thesis by (simp add: lags_of_int)
next
  case (LagsList l)
  then have "a = LagsList l \<or> a = LagsArray l" by simp
  from lags_of_seq [OF this] assms LagsList show ?thesis by simp
next
  case (LagsArray l)
  then have "a = LagsList l \<or> a = LagsArray l" by simp
  from lags_of_seq [OF this] assms LagsArray show ?thesis by simp
next
  case LagsOther
  with assms show ?thesis by simp
qed

text \<open>
  C9. For every forecaster, fitted or not, and every valid \<^verbatim>\<open>lags\<close> argument (an integer
  \<open>\<ge> 1\<close>, or a non-empty list or array of integers \<open>\<ge> 1\<close>), \<^verbatim>\<open>set_lags\<close> returns and
  changes the attributes \<^verbatim>\<open>lags\<close>, \<^verbatim>\<open>max_lag\<close> and \<^verbatim>\<open>window_size\<close> only, with
  \<open>window_size = max_lag = max(lags)\<close>; the fitted flag, the regressor, the stored last
  window and both residual collections are as before.
\<close>

theorem set_lags_frame:
  assumes valid: "case a of LagsInt n \<Rightarrow> 1 \<le> n
                   | LagsList l \<Rightarrow> l \<noteq> [] \<and> (\<forall>x\<in>set l. 1 \<le> x)
                   | LagsArray l \<Rightarrow> l \<noteq> [] \<and> (\<forall>x\<in>set l. 1 \<le> x)
                   | LagsOther \<Rightarrow> False"
  shows "\<exists>self'. set_lags self a = Inr self'
           \<and> self' = self\<lparr>lags := lags self', max_lag := max_lag self',
                           window_size := window_size self'\<rparr>
           \<and> lags self' = (case a of LagsInt n \<Rightarrow> [1..n] | LagsList l \<Rightarrow> l
                                    | LagsArray l \<Rightarrow> l | LagsOther \<Rightarrow> [])
           \<and> max_lag self' = Max (set (lags self'))
           \<and> window_size self' = max_lag self'
           \<and> fitted self' = fitted self
           \<and> regressor self' = regressor self
           \<and> last_window self' = last_window self
           \<and> in_sample_residuals self' = in_sample_residuals self
           \<and> out_sample_residuals self' = out_sample_residuals self"
proof -
  from lags_of_arg_valid [OF valid] obtain ls mx where l: "lags_of_arg a = Inr (ls, mx)"
    by blast
  from lags_of_arg_Inr [OF l] show ?thesis
    by (simp add: set_lags_def l)
qed

theorem set_lags_frame_witness:
  "set_lags \<lparr>regressor = sum_regressor, lags = [1], max_lag = 1, window_size = 1,
              y_index_type = Some RangeIndexT, y_index_freq = Some 1,
              training_range = Some (IntLabel 0, IntLabel 2),
              last_window = Some \<lparr>s_values = [Some 3], s_index = RangeIndex 2 3\<rparr>,
              included_exog = False, exog_type = None, exog_col_names = None,
              in_sample_residuals = Some [Some 1, Some 1], out_sample_residuals = None,
              fitted = True\<rparr> (LagsList [1, 3])
   = Inr \<lparr>regressor = sum_regressor, lags = [1, 3], max_lag = 3, window_size = 3,
              y_index_type = Some RangeIndexT, y_index_freq = Some 1,
              training_range = Some (IntLabel 0, IntLabel 2),
              last_window = Some \<lparr>s_values = [Some 3], s_index = RangeIndex 2 3\<rparr>,
              included_exog = False, exog_type = None, exog_col_names = None,
              in_sample_residuals = Some [Some 1, Some 1], out_sample_residuals = None,
              fitted = True\<rparr>"
proof -
  have v: "case LagsList [1, 3] of LagsInt n \<Rightarrow> 1 \<le> n
                   | LagsList l \<Rightarrow> l \<noteq> [] \<and> (\<forall>x\<in>set l. 1 \<le> x)
                   | LagsArray l \<Rightarrow> l \<noteq> [] \<and> (\<forall>x\<in>set l. 1 \<le> x)
                   | LagsOther \<Rightarrow> False"
    by simp
  show ?thesis
    using set_lags_frame [OF v, of "\<lparr>regressor = sum_regressor, lags = [1], max_lag = 1, window_size = 1,
              y_index_type = Some RangeIndexT, y_index_freq = Some 1,
              training_range = Some (IntLabel 0, IntLabel 2),
              last_window = Some \<lparr>s_values = [Some 3], s_index = RangeIndex 2 3\<rparr>,
              included_exog = False, exog_type = None, exog_col_names = None,
              in_sample_residuals = Some [Some 1, Some 1], out_sample_residuals = None,
              fitted = True\<rparr>"]
    by auto
qed

section \<open>The concrete forecaster\<close>

lemma demo_init: "init sum_regressor (LagsInt 1) = Inr demo_unfitted"
  by (simp add: init_def lags_of_arg_def demo_unfitted_def upto.simps)

lemma demo_create_lags:
  "create_lags demo_unfitted demo_series =
     Inr (\<lparr>f_columns = [lag 1], f_rows = [[Some 1], [Some 2]], f_index = RangeIndex 1 3\<rparr>,
          \<lparr>s_values = [Some 2, Some 4], s_index = RangeIndex 1 3\<rparr>)"
  by (simp add: create_lags_def demo_unfitted_def demo_series_def Let_def py_get_def
      upt_rec)

lemma demo_fit: "fit demo_unfitted (Series demo_series) None [] = (Inr (), demo_fitted)"
  by (simp add: fit_def Let_def reset_def check_y_def preproces_y_def index_first_last_def
      fit_exog_def check_aligment_y_exog_def create_train_X_y_def create_lags_def
      demo_series_def demo_unfitted_def demo_fitted_def sum_regressor_def
      regressor_fit_def regressor_predict_def val_sub_def slice_pos_def py_get_def
      upt_rec upto.simps)

section \<open>Properties of the residual collections\<close>

lemma length_random_choice: "length (random_choice rnd a k) = min k (length a)"
proof (induction k arbitrary: rnd a)
  case 0
  then show ?case by simp
next
  case (Suc k)
  show ?case
  proof (cases "a = []")
    case True
    then show ?thesis by simp
  next
    case False
    define j where "j = (case rnd of [] \<Rightarrow> 0 | r # _ \<Rightarrow> r mod length a)"
    have pos: "0 < length a" using False by simp
    have j: "j < length a" using pos by (auto simp: j_def split: list.splits)
    have len: "length (take j a @ drop (Suc j) a) = length a - 1" using j by auto
    have "random_choice rnd a (Suc k) = a ! j # random_choice (tl rnd) (take j a @ drop (Suc j) a) k"
      using False by (simp add: Let_def j_def)
    then have "length (random_choice rnd a (Suc k)) = Suc (min k (length a - 1))"
      by (simp only: list.size length_Cons Suc.IH len)
    then show ?thesis using pos by arith
  qed
qed

lemma fit_exog_keeps_residuals:
  "fit_exog s y exog = (r, s') \<Longrightarrow>
     out_sample_residuals s' = out_sample_residuals s
     \<and> in_sample_residuals s' = in_sample_residuals s
     \<and> regressor s' = regressor s \<and> lags s' = lags s \<and> max_lag s' = max_lag s
     \<and> window_size s' = window_size s \<and> fitted s' = fitted s
     \<and> last_window s' = last_window s"
  by (auto simp: fit_exog_def Let_def split: option.splits sum.splits if_splits pyobj.splits)

lemma fit_success_residuals:
  assumes "fit self y exog rnd = (Inr (), s1)"
  shows "residuals_len (in_sample_residuals s1) \<le> 1000 \<and> out_sample_residuals s1 = None"
  using assms unfolding fit_def Let_def
  by (auto split: sum.splits prod.splits if_splits dest!: fit_exog_keeps_residuals
      simp: residuals_len_def length_random_choice reset_def)

lemma set_out_sample_residuals_cap:
  assumes "set_out_sample_residuals s res app rnd = Inr s'"
    and "residuals_len (out_sample_residuals s) \<le> 1000"
  shows "residuals_len (out_sample_residuals s') \<le> 1000
         \<and> in_sample_residuals s' = in_sample_residuals s"
  using assms
  by (auto simp: set_out_sample_residuals_def residuals_len_def Let_def length_random_choice
      split: residuals_arg.splits option.splits if_splits)

lemma calls_cap:
  assumes "residuals_len (out_sample_residuals s) \<le> 1000"
  shows "residuals_len (out_sample_residuals (set_out_sample_residuals_calls s cs)) \<le> 1000
         \<and> in_sample_residuals (set_out_sample_residuals_calls s cs) = in_sample_residuals s"
  using assms
proof (induction s cs rule: set_out_sample_residuals_calls.induct)
  case (1 self)
  then show ?case by simp
next
  case (2 self res app rnd cs)
  show ?case
  proof (cases "set_out_sample_residuals self res app rnd")
    case (Inl e)
    then show ?thesis using 2 by simp
  next
    case (Inr s')
    from set_out_sample_residuals_cap [OF Inr "2.prems"] 2(2) [OF Inr] Inr
    show ?thesis by simp
  qed
qed

text \<open>
  C4. After a successful \<^verbatim>\<open>fit\<close> and any finite sequence of \<^verbatim>\<open>set_out_sample_residuals\<close>
  calls (appending or not, with arrays of any length), both residual collections hold at
  most 1000 values; and a call that appends an array whose values would take the collection
  to the cap or beyond returns without error and keeps just the first values that reach
  1000 (of the array, or of its random sample of 1000 when it is longer).
\<close>

theorem residuals_capped:
  assumes "fit self y exog rnd = (Inr (), s1)"
    and "s = set_out_sample_residuals_calls s1 cs"
  shows "residuals_len (in_sample_residuals s) \<le> 1000
         \<and> residuals_len (out_sample_residuals s) \<le> 1000
         \<and> (\<forall>old a rnd'. out_sample_residuals s = Some old \<and> 1000 \<le> length old + length a \<longrightarrow>
               set_out_sample_residuals s (ResArray a) True rnd' =
                 Inr (s\<lparr>out_sample_residuals :=
                          Some (old @ take (1000 - length old)
                                  (if length a > 1000 then random_choice rnd' a 1000 else a))\<rparr>)
               \<and> length (old @ take (1000 - length old)
                                  (if length a > 1000 then random_choice rnd' a 1000 else a)) = 1000)"
proof -
  from fit_success_residuals [OF assms(1)]
  have i1: "residuals_len (in_sample_residuals s1) \<le> 1000"
    and o1: "residuals_len (out_sample_residuals s1) \<le> 1000"
    by (simp_all add: residuals_len_def)
  from calls_cap [OF o1, of cs] i1 assms(2)
  have caps: "residuals_len (in_sample_residuals s) \<le> 1000"
    "residuals_len (out_sample_residuals s) \<le> 1000"
    by simp_all
  have app: "set_out_sample_residuals s (ResArray a) True rnd' =
                 Inr (s\<lparr>out_sample_residuals :=
                          Some (old @ take (1000 - length old)
                                  (if length a > 1000 then random_choice rnd' a 1000 else a))\<rparr>)
               \<and> length (old @ take (1000 - length old)
                                  (if length a > 1000 then random_choice rnd' a 1000 else a)) = 1000"
    if h: "out_sample_residuals s = Some old \<and> 1000 \<le> length old + length a" for old a rnd'
  proof -
    from h caps(2) have lo: "length old \<le> 1000" by (simp add: residuals_len_def)
    let ?r = "if length a > 1000 then random_choice rnd' a 1000 else a"
    have lr: "1000 - length old \<le> length ?r"
    proof (cases "length a > 1000")
      case True
      then show ?thesis by (simp add: length_random_choice)
    next
      case False
      then show ?thesis using h by simp arith
    qed
    have "nat (max 0 (1000 - int (length old))) = 1000 - length old" using lo by simp
    moreover have "\<not> int (length ?r) < max 0 (1000 - int (length old))" using lr lo by simp
    ultimately have "set_out_sample_residuals s (ResArray a) True rnd' =
        Inr (s\<lparr>out_sample_residuals := Some (old @ take (1000 - length old) ?r)\<rparr>)"
      using h unfolding set_out_sample_residuals_def Let_def by simp
    moreover have "length (old @ take (1000 - length old) ?r) = 1000" using lr lo by simp
    ultimately show ?thesis by blast
  qed
  show ?thesis using caps app by blast
qed


theorem residuals_capped_witness:
  "residuals_len (in_sample_residuals
     (set_out_sample_residuals_calls demo_fitted [(ResArray [Some 5], True, [])])) \<le> 1000
   \<and> residuals_len (out_sample_residuals
     (set_out_sample_residuals_calls demo_fitted [(ResArray [Some 5], True, [])])) \<le> 1000
   \<and> set_out_sample_residuals demo_fitted (ResArray [Some 5]) True [] =
       Inr (demo_fitted\<lparr>out_sample_residuals := Some [Some 5]\<rparr>)
   \<and> set_out_sample_residuals (demo_fitted\<lparr>out_sample_residuals := Some [Some 5]\<rparr>)
        (ResArray thousand_zeros) True [] =
       Inr (demo_fitted\<lparr>out_sample_residuals := Some (Some 5 # take 999 thousand_zeros)\<rparr>)"
proof -
  let ?s = "demo_fitted\<lparr>out_sample_residuals := Some [Some 5]\<rparr>"
  have len: "length thousand_zeros = 1000"
    by (simp only: thousand_zeros_def length_replicate)
  have one: "set_out_sample_residuals demo_fitted (ResArray [Some 5]) True [] = Inr ?s"
    by (simp add: set_out_sample_residuals_def demo_fitted_def)
  then have s: "?s = set_out_sample_residuals_calls demo_fitted [(ResArray [Some 5], True, [])]"
    by simp
  have h: "out_sample_residuals ?s = Some [Some 5]
           \<and> 1000 \<le> length [Some (5::real)] + length thousand_zeros"
    by (simp add: len)
  note R = residuals_capped [OF demo_fit s]
  have c1: "residuals_len (in_sample_residuals ?s) \<le> 1000"
    by (rule R [THEN conjunct1])
  have c2: "residuals_len (out_sample_residuals ?s) \<le> 1000"
    by (rule R [THEN conjunct2, THEN conjunct1])
  note A = R [THEN conjunct2, THEN conjunct2, rule_format,
      of "[Some 5]" thousand_zeros "[]", OF h, THEN conjunct1]
  have t: "[Some 5] @ take (1000 - length [Some (5::real)])
          (if length thousand_zeros > 1000
           then random_choice [] thousand_zeros 1000 else thousand_zeros)
        = Some 5 # take 999 thousand_zeros"
    by (simp add: len)
  have app: "set_out_sample_residuals ?s (ResArray thousand_zeros) True [] =
       Inr (demo_fitted\<lparr>out_sample_residuals := Some (Some 5 # take 999 thousand_zeros)\<rparr>)"
    using A unfolding t by simp
  have calls: "set_out_sample_residuals_calls demo_fitted [(ResArray [Some 5], True, [])] = ?s"
    by (rule s [symmetric])
  show ?thesis
    unfolding calls
    by (intro conjI) (rule c1 c2 one app)+
qed

section \<open>Properties of \<^verbatim>\<open>fit\<close>\<close>

lemma reset_init: "init reg a = Inr self \<Longrightarrow> reset self = self"
  by (auto simp: init_def reset_def split: sum.splits)

lemma preproces_index_labels:
  "length (index_labels idx) = n \<Longrightarrow> length (index_labels (preproces_index idx n)) = n"
  by (induction idx n rule: preproces_index.induct) simp_all

lemma index_first_last_ok:
  assumes "series_ok yc" and "s_values yc \<noteq> []"
  shows "\<exists>tr. index_first_last (s_index (preproces_y yc)) = Inr tr"
proof -
  have "length (index_labels (s_index (preproces_y yc))) = length (s_values yc)"
    using assms(1) by (simp add: preproces_y_def series_ok_def preproces_index_labels)
  then have "index_labels (s_index (preproces_y yc)) \<noteq> []" using assms(2) by auto
  then show ?thesis by (auto simp: index_first_last_def split: list.splits)
qed

text \<open>
  C3 (as amended). When \<^verbatim>\<open>fit\<close> fails because \<open>y\<close> is not a Series, \<open>y\<close> has missing values or
  \<open>exog\<close> has another length than \<open>y\<close>, the exception comes before the regressor is trained
  and before any fitted state is stored, but after the reset at the head of \<^verbatim>\<open>fit\<close>: the
  object after the call has \<^verbatim>\<open>fitted = False\<close>, no last window, no residuals and no
  exogenous metadata, whatever it held before, and its regressor and lag configuration are
  those before the call. For the two failures of \<open>y\<close> the object is exactly the reset one.
\<close>

theorem fit_validation_failure:
  assumes "(\<exists>e. check_y y = Inl e)
           \<or> (\<exists>yc ex n. check_y y = Inr yc \<and> series_ok yc \<and> s_values yc \<noteq> []
                \<and> exog = Some ex \<and> py_len ex = Inr n \<and> n \<noteq> length (s_values yc))"
  shows "\<exists>e s'. fit self y exog rnd = (Inl e, s')
           \<and> (e = YNotSeries \<or> e = YMissingValues \<or> e = ExogLengthMismatch)
           \<and> fitted s' = False \<and> last_window s' = None
           \<and> in_sample_residuals s' = None \<and> out_sample_residuals s' = None
           \<and> included_exog s' = False \<and> exog_type s' = None \<and> exog_col_names s' = None
           \<and> regressor s' = regressor self \<and> lags s' = lags self
           \<and> max_lag s' = max_lag self \<and> window_size s' = window_size self
           \<and> ((\<exists>e. check_y y = Inl e) \<longrightarrow> s' = reset self)"
  using assms
proof (elim disjE exE conjE)
  fix e assume e: "check_y y = Inl e"
  then have "e = YNotSeries \<or> e = YMissingValues"
    by (auto simp: check_y_def split: pyobj.splits if_splits)
  moreover have "fit self y exog rnd = (Inl e, reset self)"
    by (simp add: fit_def e)
  ultimately show ?thesis by (auto simp: reset_def)
next
  fix yc ex n
  assume c: "check_y y = Inr yc" and ok: "series_ok yc" and ne: "s_values yc \<noteq> []"
    and ex: "exog = Some ex" and len: "py_len ex = Inr n" and n: "n \<noteq> length (s_values yc)"
  from index_first_last_ok [OF ok ne] obtain tr
    where tr: "index_first_last (s_index (preproces_y yc)) = Inr tr" by blast
  have l: "length (s_values (preproces_y yc)) = length (s_values yc)"
    by (simp add: preproces_y_def)
  have fe: "fit_exog s (preproces_y yc) exog = (Inl ExogLengthMismatch, s)" for s :: "'a forecaster"
    using len n by (simp add: fit_exog_def ex l)
  have "fit self y exog rnd =
          (Inl ExogLengthMismatch,
           (reset self)\<lparr>y_index_type := Some (type_of_index (s_index (preproces_y yc))),
                        training_range := Some tr,
                        y_index_freq := index_freq (s_index (preproces_y yc))\<rparr>)"
    by (simp add: fit_def Let_def c tr fe)
  then show ?thesis using c by (simp add: reset_def)
qed

theorem fit_validation_failure_witness:
  "\<exists>e s'. fit demo_fitted (Series demo_series) (Some (NdArray [Some 1])) [] = (Inl e, s')
           \<and> (e = YNotSeries \<or> e = YMissingValues \<or> e = ExogLengthMismatch)
           \<and> fitted s' = False \<and> last_window s' = None
           \<and> in_sample_residuals s' = None \<and> out_sample_residuals s' = None
           \<and> regressor s' = regressor demo_fitted \<and> lags s' = lags demo_fitted"
proof -
  have "\<exists>yc ex n. check_y (Series demo_series) = Inr yc \<and> series_ok yc \<and> s_values yc \<noteq> []
          \<and> Some (NdArray [Some (1::real)]) = Some ex \<and> py_len ex = Inr n
          \<and> n \<noteq> length (s_values yc)"
    by (simp add: check_y_def demo_series_def series_ok_def)
  then have h: "(\<exists>e. check_y (Series demo_series) = Inl e)
           \<or> (\<exists>yc ex n. check_y (Series demo_series) = Inr yc \<and> series_ok yc \<and> s_values yc \<noteq> []
                \<and> Some (NdArray [Some (1::real)]) = Some ex \<and> py_len ex = Inr n
                \<and> n \<noteq> length (s_values yc))"
    by (rule disjI2)
  from fit_validation_failure [OF h, of demo_fitted "[]"] show ?thesis by blast
qed

text \<open>
  C3 as stated fails: \<^verbatim>\<open>fit\<close> on a fitted forecaster with a \<open>y\<close> that is not a Series raises,
  and leaves the forecaster reset: not fitted, without its last window and residuals.
\<close>

theorem fit_failure_resets_counterexample:
  "fit demo_fitted OtherObj None [] = (Inl YNotSeries, demo_unfitted)
   \<and> fitted demo_fitted \<and> \<not> fitted demo_unfitted
   \<and> last_window demo_fitted = Some \<lparr>s_values = [Some 4], s_index = RangeIndex 2 3\<rparr>
   \<and> last_window demo_unfitted = None
   \<and> in_sample_residuals demo_fitted = Some [Some 1, Some 2]
   \<and> in_sample_residuals demo_unfitted = None"
  by (simp add: fit_def check_y_def reset_def demo_fitted_def demo_unfitted_def)

section \<open>Properties of \<^verbatim>\<open>_create_lags\<close>\<close>

lemma py_get_neg:
  assumes "1 \<le> l" and "l \<le> int (length xs)"
  shows "py_get xs (- l) = Inr (xs ! (length xs - nat l))"
proof -
  have "nat (int (length xs) + - l) = length xs - nat l" using assms by linarith
  then show ?thesis using assms by (simp add: py_get_def)
qed

lemma py_take_neg:
  assumes "\<forall>l\<in>set ls. 1 \<le> l \<and> l \<le> int (length xs)"
  shows "py_take xs (map uminus ls) = Inr (map (\<lambda>l. xs ! (length xs - nat l)) ls)"
  using assms by (induction ls) (simp_all add: py_get_neg)

text \<open>
  What \<^verbatim>\<open>_create_lags\<close> does when \<^verbatim>\<open>self.lags\<close> has as many elements as \<^verbatim>\<open>max_lag\<close> (as with
  \<^verbatim>\<open>lags\<close> given as an integer): for a series of length \<open>n > max_lag = m\<close>, \<open>n - m\<close> rows of
  one value per lag, \<open>n - m\<close> targets, target \<open>i\<close> is \<open>y[i + m]\<close> and the value for lag \<open>k\<close>
  in row \<open>i\<close> is the observation \<open>k\<close> positions before the target.
\<close>

lemma create_lags_all_lags_present:
  assumes len: "int (length (lags self)) = max_lag self"
    and rng: "\<forall>l\<in>set (lags self). 1 \<le> l \<and> l \<le> max_lag self"
    and n: "max_lag self < int (length (s_values y))"
  shows "\<exists>X t. create_lags self y = Inr (X, t)
           \<and> length (f_rows X) = length (s_values y) - nat (max_lag self)
           \<and> length (f_columns X) = length (lags self)
           \<and> (\<forall>r\<in>set (f_rows X). length r = length (lags self))
           \<and> length (s_values t) = length (s_values y) - nat (max_lag self)
           \<and> (\<forall>i<length (s_values y) - nat (max_lag self).
                 s_values t ! i = s_values y ! (i + nat (max_lag self))
                 \<and> (\<forall>k<length (lags self).
                       f_rows X ! i ! k =
                         s_values y ! (i + nat (max_lag self) - nat (lags self ! k))))"
proof -
  let ?m = "nat (max_lag self)"
  let ?n = "length (s_values y)"
  let ?keep = "map (\<lambda>l. [0..<?m] ! (length [0..<?m] - nat l)) (lags self)"
  have m0: "0 \<le> max_lag self" using len by linarith
  have mn: "?m < ?n" using n m0 by linarith
  have ns: "nat (int ?n - max_lag self) = ?n - ?m" using m0 by linarith
  have "\<forall>l\<in>set (lags self). 1 \<le> l \<and> l \<le> int (length [0..<?m])" using rng m0 by simp
  from py_take_neg [OF this]
  have take: "py_take [0..<?m] (map uminus (lags self)) = Inr ?keep" .
  have keep: "?keep ! k = ?m - nat (lags self ! k)" if "k < length (lags self)" for k
  proof -
    have "1 \<le> lags self ! k \<and> lags self ! k \<le> max_lag self" using rng that by simp
    then have "?m - nat (lags self ! k) < ?m" by linarith
    then show ?thesis using that by simp
  qed
  define X where "X = \<lparr>f_columns = map (\<lambda>j. map lag (rev (lags self)) ! j) ?keep,
       f_rows = map (\<lambda>r. map (\<lambda>j. r ! j) ?keep)
                  (map (\<lambda>i. take ?m (drop i (s_values y))) [0..<?n - ?m]),
       f_index = index_from (s_index y) ?m\<rparr>"
  define t where "t = \<lparr>s_values = map (\<lambda>i. s_values y ! (?m + i)) [0..<?n - ?m],
       s_index = index_from (s_index y) ?m\<rparr>"
  have cl: "create_lags self y = Inr (X, t)"
    using n m0 len by (simp add: create_lags_def Let_def take ns X_def t_def)
  have cell: "f_rows X ! i ! k = s_values y ! (i + ?m - nat (lags self ! k))"
    if i: "i < ?n - ?m" and k: "k < length (lags self)" for i k
  proof -
    have b: "1 \<le> lags self ! k \<and> lags self ! k \<le> max_lag self" using rng k by simp
    then have lt: "?m - nat (lags self ! k) < ?m" by linarith
    have "f_rows X ! i ! k = take ?m (drop i (s_values y)) ! (?m - nat (lags self ! k))"
      using i k keep [OF k] by (simp add: X_def)
    also have "\<dots> = s_values y ! (i + (?m - nat (lags self ! k)))"
      using lt i by simp
    also have "i + (?m - nat (lags self ! k)) = i + ?m - nat (lags self ! k)"
      using b by linarith
    finally show ?thesis .
  qed
  have tgt: "s_values t ! i = s_values y ! (i + ?m)" if "i < ?n - ?m" for i
    using that by (simp add: t_def add.commute)
  show ?thesis
    apply (rule exI [of _ X], rule exI [of _ t])
    apply (intro conjI)
         apply (rule cl)
        apply (simp add: X_def)
       apply (simp add: X_def)
      apply (simp add: X_def)
     apply (simp add: t_def)
    using cell tgt apply blast
    done
qed

text \<open>
  C1 fails on the code for a lag set that leaves out a lag below its maximum. For
  \<^verbatim>\<open>lags=[1, 3]\<close> and a series of 5 observations, \<^verbatim>\<open>_create_lags\<close> passes a block of
  \<^verbatim>\<open>max_lag = 3\<close> columns and the two column names \<^verbatim>\<open>lag_3, lag_1\<close> to \<^verbatim>\<open>pd.DataFrame\<close>,
  which raises ValueError: no feature table is returned.
\<close>

theorem create_lags_gap_fails:
  "init sum_regressor (LagsList [1, 3]) = Inr gap_forecaster
   \<and> create_lags gap_forecaster
        \<lparr>s_values = [Some 1, Some 2, Some 3, Some 4, Some 5], s_index = RangeIndex 0 5\<rparr>
       = Inl ValueError"
  by (simp add: init_def lags_of_arg_def gap_forecaster_def create_lags_def Let_def)

section \<open>Properties of \<^verbatim>\<open>predict\<close>\<close>

lemma lags_of_arg_lags_ok:
  assumes "lags_of_arg a = Inr (ls, mx)"
  shows "ls \<noteq> [] \<and> (\<forall>l\<in>set ls. 1 \<le> l \<and> l \<le> mx)"
proof -
  note R = lags_of_arg_Inr [OF assms]
  have a: "ls \<noteq> []" by (rule R [THEN conjunct1])
  have b: "\<forall>l\<in>set ls. 1 \<le> l" by (rule R [THEN conjunct2, THEN conjunct1])
  have c: "mx = Max (set ls)" by (rule R [THEN conjunct2, THEN conjunct2, THEN conjunct1])
  show ?thesis using a b by (simp add: c)
qed

lemma init_lags_ok: "init reg a = Inr self \<Longrightarrow> lags_ok self"
  by (auto simp: init_def lags_ok_def split: sum.splits dest!: lags_of_arg_lags_ok)

lemma set_lags_lags_ok: "set_lags self a = Inr self' \<Longrightarrow> lags_ok self'"
  by (auto simp: set_lags_def lags_ok_def split: sum.splits dest!: lags_of_arg_lags_ok)

lemma lags_ok_max_lag: "lags_ok self \<Longrightarrow> 1 \<le> max_lag self"
  by (cases "lags self") (auto simp: lags_ok_def)

lemma predict_features:
  assumes "lags_ok self" and "max_lag self \<le> int (length w)"
  shows "py_take w (map uminus (lags self)) =
           Inr (map (\<lambda>l. w ! (length w - nat l)) (lags self))"
  using assms by (intro py_take_neg) (auto simp: lags_ok_def)

lemma slice_from_1: "slice_from w 1 = drop 1 w"
  by (simp add: slice_from_def slice_pos_def min_def)

lemma predict_loop_Suc:
  assumes "lags_ok self" and "max_lag self \<le> int (length w)"
  shows "predict_loop self w (Suc n) =
           (let p = regressor_predict (regressor self)
                      (map (\<lambda>l. w ! (length w - nat l)) (lags self))
            in case predict_loop self (drop 1 w @ [p]) n of
                 Inl e \<Rightarrow> Inl e | Inr ps \<Rightarrow> Inr (p # ps))"
  by (simp add: predict_features [OF assms] slice_from_1 Let_def)

lemma predict_loop_ok:
  assumes "lags_ok self" and "max_lag self \<le> int (length w)"
  shows "\<exists>ps. predict_loop self w n = Inr ps \<and> length ps = n \<and> None \<notin> set ps"
  using assms(2)
proof (induction n arbitrary: w)
  case 0
  then show ?case by simp
next
  case (Suc n)
  let ?p = "regressor_predict (regressor self) (map (\<lambda>l. w ! (length w - nat l)) (lags self))"
  have pos: "1 \<le> length w" using lags_ok_max_lag [OF assms(1)] Suc.prems by linarith
  then have "max_lag self \<le> int (length (drop 1 w @ [?p]))" using Suc.prems by simp
  from Suc.IH [OF this] obtain ps
    where "predict_loop self (drop 1 w @ [?p]) n = Inr ps" "length ps = n" "None \<notin> set ps"
    by blast
  then show ?case
    by (simp add: predict_loop_Suc [OF assms(1) Suc.prems] Let_def regressor_predict_def
        del: predict_loop.simps)
qed

lemma predict_loop_tail:
  assumes "lags_ok self" and "max_lag self \<le> int (length w)"
  shows "predict_loop self w n =
           predict_loop self (drop (length w - nat (max_lag self)) w) n"
  using assms(2)
proof (induction n arbitrary: w)
  case 0
  then show ?case by simp
next
  case (Suc n)
  let ?m = "nat (max_lag self)"
  let ?L = "length w"
  let ?w' = "drop (?L - ?m) w"
  have m1: "1 \<le> ?m" using lags_ok_max_lag [OF assms(1)] by linarith
  have mL: "?m \<le> ?L" using Suc.prems by linarith
  have lw': "length ?w' = ?m" using mL by simp
  have feat: "map (\<lambda>l. ?w' ! (length ?w' - nat l)) (lags self) =
              map (\<lambda>l. w ! (?L - nat l)) (lags self)"
  proof (rule map_cong [OF refl])
    fix l assume "l \<in> set (lags self)"
    then have "1 \<le> l \<and> l \<le> max_lag self" using assms(1) by (simp add: lags_ok_def)
    then have "?L - ?m + (?m - nat l) = ?L - nat l" and "?m - nat l < ?m"
      using mL by linarith+
    then show "?w' ! (length ?w' - nat l) = w ! (?L - nat l)"
      using mL by (simp add: lw')
  qed
  let ?p = "regressor_predict (regressor self) (map (\<lambda>l. w ! (?L - nat l)) (lags self))"
  have next_len: "max_lag self \<le> int (length (drop 1 w @ [?p]))" using m1 mL by simp
  have next_eq: "drop (length (drop 1 w @ [?p]) - ?m) (drop 1 w @ [?p]) = drop 1 ?w' @ [?p]"
    using m1 mL by (simp add: Suc_diff_le)
  have w'len: "max_lag self \<le> int (length ?w')" using lw' by simp
  have step: "predict_loop self (drop 1 w @ [?p]) n = predict_loop self (drop 1 ?w' @ [?p]) n"
    using Suc.IH [OF next_len] unfolding next_eq .
  have L: "predict_loop self w (Suc n) =
             (case predict_loop self (drop 1 w @ [?p]) n of
                Inl e \<Rightarrow> Inl e | Inr ps \<Rightarrow> Inr (?p # ps))"
    using predict_loop_Suc [OF assms(1) Suc.prems, of n] unfolding Let_def .
  have R: "predict_loop self ?w' (Suc n) =
             (case predict_loop self (drop 1 ?w' @ [?p]) n of
                Inl e \<Rightarrow> Inl e | Inr ps \<Rightarrow> Inr (?p # ps))"
    using predict_loop_Suc [OF assms(1) w'len, of n] unfolding feat Let_def .
  show ?case unfolding L R step ..
qed

lemma expand_index_ok:
  assumes "series_ok w" and "s_values w \<noteq> []" and "0 \<le> steps"
  shows "\<exists>idx. expand_index (s_index (preproces_y w)) steps = Inr idx"
proof -
  have n: "length (index_labels (s_index w)) = length (s_values w)"
    using assms(1) by (simp add: series_ok_def)
  show ?thesis
  proof (cases "s_index w")
    case (RangeIndex a b)
    then show ?thesis using assms(2) by (simp add: preproces_y_def)
  next
    case (DatetimeIndex ts fr)
    then show ?thesis using assms(2,3) n
      by (cases fr; cases ts) (auto simp: preproces_y_def)
  next
    case (OtherIndex ls)
    then show ?thesis using assms(2) by (simp add: preproces_y_def)
  qed
qed

lemma predict_supplied:
  assumes fit: "fitted self" and ex: "\<not> included_exog self" and lo: "lags_ok self"
    and ok: "series_ok w" and nn: "None \<notin> set (s_values w)"
    and len: "max_lag self \<le> int (length (s_values w))" and st: "1 \<le> steps"
  shows "\<exists>idx ps. predict self steps (Some (Series w)) None = Inr \<lparr>s_values = ps, s_index = idx\<rparr>
           \<and> predict_loop self (s_values w) (nat steps) = Inr ps
           \<and> length ps = nat steps \<and> None \<notin> set ps"
proof -
  have ne: "s_values w \<noteq> []" using lags_ok_max_lag [OF lo] len by auto
  have st0: "0 \<le> steps" using st by simp
  from expand_index_ok [OF ok ne st0] obtain idx
    where idx: "expand_index (s_index (preproces_y w)) steps = Inr idx" by blast
  from predict_loop_ok [OF lo len] obtain ps
    where ps: "predict_loop self (s_values w) (nat steps) = Inr ps" "length ps = nat steps"
      "None \<notin> set ps" by blast
  have win: "predict_window self (Some (Series w)) = Inr (preproces_y w)"
    using nn len by (simp add: predict_window_def check_last_window_def)
  have v: "s_values (preproces_y w) = s_values w" by (simp add: preproces_y_def)
  have "predict self steps (Some (Series w)) None = Inr \<lparr>s_values = ps, s_index = idx\<rparr>"
    using fit ex st by (simp add: predict_def win idx ps v)
  then show ?thesis using ps by blast
qed


lemma demo_lags_ok: "lags_ok demo_fitted"
  by (simp add: lags_ok_def demo_fitted_def)


text \<open>
  C10 (as amended). For a fitted forecaster, \<open>steps \<ge> 1\<close> and two supplied last windows,
  each a Series without missing values holding at least \<^verbatim>\<open>max_lag\<close> observations, whose
  trailing \<^verbatim>\<open>max_lag\<close> values are equal: \<^verbatim>\<open>predict\<close> with the same \<open>exog\<close> returns the same
  predicted values for both, or raises the same exception for both; without \<open>exog\<close>, on a
  forecaster trained without exogenous data, it returns \<open>steps\<close> values. Among the windows
  that pass the missing-value check, the predicted values depend only on the last
  \<^verbatim>\<open>max_lag\<close> observations.
\<close>

theorem predict_depends_on_trailing_window:
  assumes fit: "fitted self" and lo: "lags_ok self" and st: "1 \<le> steps"
    and ok1: "series_ok w1" and nn1: "None \<notin> set (s_values w1)"
    and len1: "max_lag self \<le> int (length (s_values w1))"
    and ok2: "series_ok w2" and nn2: "None \<notin> set (s_values w2)"
    and len2: "max_lag self \<le> int (length (s_values w2))"
    and tail: "drop (length (s_values w1) - nat (max_lag self)) (s_values w1) =
               drop (length (s_values w2) - nat (max_lag self)) (s_values w2)"
  shows "map_sum id s_values (predict self steps (Some (Series w1)) exog) =
         map_sum id s_values (predict self steps (Some (Series w2)) exog)
         \<and> (exog = None \<and> \<not> included_exog self \<longrightarrow>
              (\<exists>p. predict self steps (Some (Series w1)) exog = Inr p
                    \<and> length (s_values p) = nat steps))"
proof (cases "exog = None \<and> \<not> included_exog self")
  case True
  then have ex: "\<not> included_exog self" and e: "exog = None" by simp_all
  from predict_supplied [OF fit ex lo ok1 nn1 len1 st]
  obtain i1 p1 where a: "predict self steps (Some (Series w1)) None = Inr \<lparr>s_values = p1, s_index = i1\<rparr>"
    and a': "predict_loop self (s_values w1) (nat steps) = Inr p1" and al: "length p1 = nat steps"
    by blast
  from predict_supplied [OF fit ex lo ok2 nn2 len2 st]
  obtain i2 p2 where b: "predict self steps (Some (Series w2)) None = Inr \<lparr>s_values = p2, s_index = i2\<rparr>"
    and b': "predict_loop self (s_values w2) (nat steps) = Inr p2"
    by blast
  have "predict_loop self (s_values w1) (nat steps) = predict_loop self (s_values w2) (nat steps)"
    using predict_loop_tail [OF lo len1, of "nat steps"] predict_loop_tail [OF lo len2, of "nat steps"]
    by (simp add: tail)
  then have "p1 = p2" using a' b' by simp
  then show ?thesis using a b al e by simp
next
  case False
  then have "predict self steps (Some (Series w1)) exog = predict self steps (Some (Series w2)) exog"
    by (auto simp: predict_def split: option.splits)
  then show ?thesis using False by auto
qed

theorem predict_depends_on_trailing_window_witness:
  "map_sum id s_values
     (predict demo_fitted 2 (Some (Series \<lparr>s_values = [Some 7, Some 5], s_index = RangeIndex 0 2\<rparr>)) None)
   = map_sum id s_values
     (predict demo_fitted 2 (Some (Series \<lparr>s_values = [Some 1, Some 2, Some 5],
                                           s_index = DatetimeIndex [10, 20, 30] (Some 10)\<rparr>)) None)
   \<and> (\<exists>p. predict demo_fitted 2
             (Some (Series \<lparr>s_values = [Some 7, Some 5], s_index = RangeIndex 0 2\<rparr>)) None = Inr p
           \<and> length (s_values p) = nat 2)"
proof -
  let ?w1 = "\<lparr>s_values = [Some 7, Some 5], s_index = RangeIndex 0 2\<rparr>"
  let ?w2 = "\<lparr>s_values = [Some 1, Some 2, Some 5], s_index = DatetimeIndex [10, 20, 30] (Some 10)\<rparr>"
  have a: "fitted demo_fitted" by (simp add: demo_fitted_def)
  have b: "(1::int) \<le> 2" by simp
  have c1: "series_ok ?w1" and c2: "series_ok ?w2" by (simp_all add: series_ok_def)
  have d1: "None \<notin> set (s_values ?w1)" and d2: "None \<notin> set (s_values ?w2)" by simp_all
  have e1: "max_lag demo_fitted \<le> int (length (s_values ?w1))"
    and e2: "max_lag demo_fitted \<le> int (length (s_values ?w2))"
    by (simp_all add: demo_fitted_def)
  have t: "drop (length (s_values ?w1) - nat (max_lag demo_fitted)) (s_values ?w1) =
           drop (length (s_values ?w2) - nat (max_lag demo_fitted)) (s_values ?w2)"
    by (simp add: demo_fitted_def)
  have n: "None = None \<and> \<not> included_exog demo_fitted" by (simp add: demo_fitted_def)
  from predict_depends_on_trailing_window [OF a demo_lags_ok b c1 d1 e1 c2 d2 e2 t, of None] n
  show ?thesis by blast
qed

text \<open>
  C10 as stated fails: the check for missing values reads the whole supplied window, not
  only its last \<^verbatim>\<open>max_lag\<close> values. With \<^verbatim>\<open>max_lag = 1\<close> the windows \<open>[NaN, 5]\<close> and \<open>[7, 5]\<close>
  have the same trailing value, and \<^verbatim>\<open>predict\<close> raises on the first and returns on the
  second.
\<close>

theorem predict_missing_history_counterexample:
  "predict demo_fitted 2
     (Some (Series \<lparr>s_values = [None, Some 5], s_index = RangeIndex 0 2\<rparr>)) None
     = Inl LastWindowMissingValues
   \<and> predict demo_fitted 2
     (Some (Series \<lparr>s_values = [Some 7, Some 5], s_index = RangeIndex 0 2\<rparr>)) None
     = Inr \<lparr>s_values = [Some 5, Some 5], s_index = RangeIndex 2 4\<rparr>
   \<and> fitted demo_fitted \<and> max_lag demo_fitted = 1
   \<and> drop (length [None, Some (5::real)] - nat 1) [None, Some (5::real)]
       = drop (length [Some (7::real), Some 5] - nat 1) [Some 7, Some 5]"
  by (simp add: predict_def predict_window_def check_last_window_def preproces_y_def
      demo_fitted_def sum_regressor_def regressor_predict_def py_get_def slice_from_def
      slice_pos_def eval_nat_numeral Let_def)






section \<open>\<^verbatim>\<open>predict\<close> writes no array that existed before the call\<close>

lemma predict_step_st_eq:
  "predict_step_st self pa wa i X h =
     (length h + 2,
      (h @ [X, [regressor_predict (regressor self) X]])
        [pa := ((h @ [X, [regressor_predict (regressor self) X]]) ! pa)
                 [i := regressor_predict (regressor self) X]]
      @ [slice_from
           ((h @ [X, [regressor_predict (regressor self) X]])
              [pa := ((h @ [X, [regressor_predict (regressor self) X]]) ! pa)
                       [i := regressor_predict (regressor self) X]] ! wa) 1
         @ (h @ [X, [regressor_predict (regressor self) X]])
              [pa := ((h @ [X, [regressor_predict (regressor self) X]]) ! pa)
                       [i := regressor_predict (regressor self) X]] ! Suc (length h)])"
  by (simp add: predict_step_st_def alloc_def Let_def nth_append)

lemma predict_step_st_frame:
  assumes "predict_step_st self pa wa i X h = (wa', h4)" and "k \<le> pa" and "k \<le> length h"
  shows "take k h4 = take k h \<and> length h \<le> length h4"
  using assms unfolding predict_step_st_eq
  by auto

lemma predict_loop_st_frame:
  assumes "predict_loop_st self pa wa i n h = (r, h')" and "k \<le> pa" and "k \<le> length h"
  shows "take k h' = take k h \<and> length h \<le> length h'"
  using assms
proof (induction n arbitrary: wa i h)
  case 0
  then show ?case by simp
next
  case (Suc n)
  show ?case
  proof (cases "py_take (h ! wa) (map uminus (lags self))")
    case (Inl e)
    then show ?thesis using Suc.prems by simp
  next
    case (Inr X)
    obtain wa' h4 where st: "predict_step_st self pa wa i X h = (wa', h4)" by fastforce
    have run: "predict_loop_st self pa wa' (Suc i) n h4 = (r, h')"
      using Suc.prems(1) Inr st by simp
    note f = predict_step_st_frame [OF st Suc.prems(2,3)]
    then have "k \<le> length h4" using Suc.prems(3) by simp
    from Suc.IH [OF run Suc.prems(2) this] f
    show ?thesis by simp
  qed
qed

lemma predict_window_st_frame:
  assumes "predict_window_st self refs lw h = (r, h')"
  shows "take (length h) h' = h"
  using assms
  by (auto simp: predict_window_st_def preproces_y_st_def alloc_def Let_def
      split: option.splits if_splits index.splits prod.splits)

lemma predict_st_frame:
  assumes "predict_st self refs steps lw exog h = (r, h')"
  shows "take (length h) h' = h"
proof (cases "fitted self \<and> 1 \<le> steps \<and> exog = None \<and> \<not> included_exog self")
  case False
  then have "h' = h" using assms
    by (auto simp: predict_st_def split: if_splits option.splits sum.splits)
  then show ?thesis by simp
next
  case True
  obtain rw h1 where w: "predict_window_st self refs lw h = (rw, h1)" by fastforce
  note f1 = predict_window_st_frame [OF w]
  show ?thesis
  proof (cases rw)
    case (Inl e)
    then show ?thesis using assms True w f1 by (simp add: predict_st_def)
  next
    case (Inr lwr)
    let ?h2 = "h1 @ [replicate (nat steps) None]"
    have len1: "length h \<le> length h1" using f1 by (metis linorder_le_cases take_all_iff)
    show ?thesis
    proof (cases "expand_index (r_index lwr) steps")
      case (Inl e)
      then have "h' = ?h2" using assms True w Inr by (simp add: predict_st_def alloc_def)
      then show ?thesis using f1 len1 by simp
    next
      case idx: (Inr idx)
      obtain rl h3 where l: "predict_loop_st self (length h1) (r_buf lwr) 0 (nat steps) ?h2 = (rl, h3)"
        by fastforce
      have "h' = h3" using assms True w Inr idx l
        by (auto simp: predict_st_def alloc_def split: sum.splits)
      moreover have "take (length h) h3 = take (length h) ?h2"
        using predict_loop_st_frame [OF l len1] len1 by simp
      ultimately show ?thesis using f1 len1 by simp
    qed
  qed
qed

section \<open>\<^verbatim>\<open>predict\<close> on the store returns the values of \<^verbatim>\<open>predict\<close>\<close>

lemma predict_step_st_content:
  assumes pa: "pa < length h" and wa: "wa < length h" and ne: "wa \<noteq> pa"
    and st: "predict_step_st self pa wa i X h = (wa', h4)"
  shows "wa' = length h + 2 \<and> length h4 = length h + 3
         \<and> h4 ! wa' = slice_from (h ! wa) 1 @ [regressor_predict (regressor self) X]
         \<and> h4 ! pa = (h ! pa)[i := regressor_predict (regressor self) X]"
  using assms unfolding predict_step_st_eq
  by (auto simp: nth_append nth_list_update)

lemma predict_loop_st_refines:
  assumes "pa < length h" and "wa < length h" and "wa \<noteq> pa" and "i + n \<le> length (h ! pa)"
  shows "case predict_loop self (h ! wa) n of
           Inl e \<Rightarrow> fst (predict_loop_st self pa wa i n h) = Inl e
         | Inr ps \<Rightarrow> fst (predict_loop_st self pa wa i n h) = Inr ()
             \<and> snd (predict_loop_st self pa wa i n h) ! pa =
                 take i (h ! pa) @ ps @ drop (i + n) (h ! pa)"
  using assms
proof (induction n arbitrary: wa i h)
  case 0
  then show ?case by simp
next
  case (Suc n)
  show ?case
  proof (cases "py_take (h ! wa) (map uminus (lags self))")
    case (Inl e)
    then show ?thesis by simp
  next
    case (Inr X)
    let ?p = "regressor_predict (regressor self) X"
    obtain wa' h4 where st: "predict_step_st self pa wa i X h = (wa', h4)" by fastforce
    note c = predict_step_st_content [OF Suc.prems(1,2,3) st]
    have wa': "wa' = length h + 2" by (rule c [THEN conjunct1])
    have l4: "length h4 = length h + 3" by (rule c [THEN conjunct2, THEN conjunct1])
    have w4: "h4 ! wa' = slice_from (h ! wa) 1 @ [?p]"
      by (rule c [THEN conjunct2, THEN conjunct2, THEN conjunct1])
    have p4: "h4 ! pa = (h ! pa)[i := ?p]"
      by (rule c [THEN conjunct2, THEN conjunct2, THEN conjunct2])
    have a1: "pa < length h4" using Suc.prems(1) l4 by simp
    have a2: "wa' < length h4" using wa' l4 by simp
    have a3: "wa' \<noteq> pa" using wa' Suc.prems(1) by simp
    have a4: "Suc i + n \<le> length (h4 ! pa)" using Suc.prems(4) p4 by simp
    have run: "predict_loop_st self pa wa i (Suc n) h = predict_loop_st self pa wa' (Suc i) n h4"
      using Inr st by simp
    have pure: "predict_loop self (h ! wa) (Suc n) =
                  (case predict_loop self (h4 ! wa') n of
                     Inl e \<Rightarrow> Inl e | Inr ps \<Rightarrow> Inr (?p # ps))"
      using Inr by (simp add: w4 Let_def)
    have i: "i < length (h ! pa)" using Suc.prems(4) by simp
    show ?thesis
    proof (cases "predict_loop self (h4 ! wa') n")
      case (Inl e)
      then show ?thesis using Suc.IH [OF a1 a2 a3 a4] unfolding run pure by simp
    next
      case ps: (Inr ps)
      from Suc.IH [OF a1 a2 a3 a4] ps
      have r: "fst (predict_loop_st self pa wa' (Suc i) n h4) = Inr ()"
        and v: "snd (predict_loop_st self pa wa' (Suc i) n h4) ! pa =
                  take (Suc i) (h4 ! pa) @ ps @ drop (Suc i + n) (h4 ! pa)"
        by simp_all
      have "take (Suc i) (h4 ! pa) = take i (h ! pa) @ [?p]"
        using i by (simp add: p4 take_Suc_conv_app_nth)
      moreover have "drop (Suc i + n) (h4 ! pa) = drop (i + Suc n) (h ! pa)"
        by (simp add: p4)
      ultimately show ?thesis using r v unfolding run pure ps by simp
    qed
  qed
qed

lemma preproces_y_st_refines:
  assumes "preproces_y_st r h = (r1, h1)" and "r_buf r < length h"
  shows "deref h1 r1 = preproces_y (deref h r) \<and> r_buf r1 < length h1
         \<and> take (length h) h1 = h"
  using assms
  by (auto simp: preproces_y_st_def preproces_y_def deref_def alloc_def Let_def nth_append
      split: index.splits option.splits)

lemma predict_window_st_refines:
  assumes ins: "in_store h refs self" and lw: "\<forall>r. lw = Some r \<longrightarrow> r_buf r < length h"
    and w: "predict_window_st self refs lw h = (rw, h1)"
  shows "map_sum id (deref h1) rw = predict_window self (map_option (\<lambda>r. Series (deref h r)) lw)
         \<and> (\<forall>r. rw = Inr r \<longrightarrow> r_buf r < length h1)"
proof (cases lw)
  case None
  then show ?thesis using ins w
    by (auto simp: predict_window_st_def predict_window_def in_store_def split: option.splits)
next
  case (Some r)
  then have b: "r_buf r < length h" using lw by simp
  obtain r1 h2 where p: "preproces_y_st r h = (r1, h2)" by fastforce
  note c = preproces_y_st_refines [OF p b]
  show ?thesis using w Some c
    by (auto simp: predict_window_st_def predict_window_def check_last_window_def p deref_def
        split: if_splits)
qed

lemma predict_st_refines:
  assumes ins: "in_store h refs self" and lw: "\<forall>r. lw = Some r \<longrightarrow> r_buf r < length h"
    and run: "predict_st self refs steps lw exog h = (res, h')"
  shows "map_sum id (deref h') res = predict self steps (map_option (\<lambda>r. Series (deref h r)) lw) exog"
proof (cases "fitted self \<and> 1 \<le> steps \<and> exog = None \<and> \<not> included_exog self")
  case False
  then show ?thesis using run
    by (auto simp: predict_st_def predict_def split: if_splits option.splits sum.splits)
next
  case True
  obtain rw h1 where w: "predict_window_st self refs lw h = (rw, h1)" by fastforce
  note wr = predict_window_st_refines [OF ins lw w]
  show ?thesis
  proof (cases rw)
    case (Inl e)
    then have "predict_window self (map_option (\<lambda>r. Series (deref h r)) lw) = Inl e"
      using wr by simp
    then show ?thesis using run True w Inl by (auto simp: predict_st_def predict_def)
  next
    case (Inr lwr)
    let ?h2 = "h1 @ [replicate (nat steps) None]"
    have pw: "predict_window self (map_option (\<lambda>r. Series (deref h r)) lw) = Inr (deref h1 lwr)"
      and b: "r_buf lwr < length h1"
      using wr Inr by simp_all
    show ?thesis
    proof (cases "expand_index (r_index lwr) steps")
      case (Inl e)
      then have "res = Inl e" using run True w Inr
        by (auto simp: predict_st_def alloc_def)
      then show ?thesis using True pw Inl
        by (simp add: predict_def deref_def)
    next
      case idx: (Inr idx)
      have a1: "length h1 < length ?h2" and a2: "r_buf lwr < length ?h2"
        and a3: "r_buf lwr \<noteq> length h1" and a4: "0 + nat steps \<le> length (?h2 ! length h1)"
        using b by simp_all
      have win: "?h2 ! r_buf lwr = s_values (deref h1 lwr)"
        using b by (simp add: nth_append deref_def)
      obtain rl h3 where l: "predict_loop_st self (length h1) (r_buf lwr) 0 (nat steps) ?h2 = (rl, h3)"
        by fastforce
      note lr = predict_loop_st_refines [OF a1 a2 a3 a4, of self, unfolded l win fst_conv snd_conv]
      show ?thesis
      proof (cases "predict_loop self (s_values (deref h1 lwr)) (nat steps)")
        case (Inl e)
        then have "rl = Inl e" using lr by simp
        then have "res = Inl e" using run True w Inr idx l
          by (auto simp: predict_st_def alloc_def)
        then show ?thesis using True pw idx Inl
          by (simp add: predict_def deref_def)
      next
        case ps: (Inr ps)
        then have rl: "rl = Inr ()" and v: "h3 ! length h1 = ps" using lr by simp_all
        have "res = Inr \<lparr>r_buf = length h1, r_index = idx\<rparr>" and "h' = h3"
          using run True w Inr idx l rl by (auto simp: predict_st_def alloc_def)
        then show ?thesis using True pw idx ps v
          by (simp add: predict_def deref_def)
      qed
    qed
  qed
qed

text \<open>
  C6. For a forecaster whose last window and residual collections are arrays of the store,
  every call of \<^verbatim>\<open>predict\<close> (any \<open>steps\<close>, with or without a supplied last window, returning or
  raising) leaves every array that existed before the call as it was: the stored last
  window and both residual collections are in the store after the call with the values
  they had before, and so is a supplied window. The loop writes only into arrays it has
  created itself. The values the call returns are those of \<open>predict\<close>.
\<close>

theorem predict_leaves_stored_arrays:
  assumes ins: "in_store h refs self" and lw: "\<forall>r. lw = Some r \<longrightarrow> r_buf r < length h"
    and run: "predict_st self refs steps lw exog h = (res, h')"
  shows "in_store h' refs self
         \<and> take (length h) h' = h
         \<and> (\<forall>r. lw = Some r \<longrightarrow> deref h' r = deref h r)
         \<and> map_sum id (deref h') res =
             predict self steps (map_option (\<lambda>r. Series (deref h r)) lw) exog"
proof -
  note f = predict_st_frame [OF run]
  have same: "h' ! a = h ! a" if "a < length h" for a
    using that f by (metis nth_take)
  have len: "length h \<le> length h'" using f by (metis linorder_le_cases take_all_iff)
  have "in_store h' refs self"
    using ins len same
    by (auto simp: in_store_def deref_def split: option.splits)
  moreover have "\<forall>r. lw = Some r \<longrightarrow> deref h' r = deref h r"
    using lw same by (simp add: deref_def)
  ultimately show ?thesis using f predict_st_refines [OF ins lw run] by blast
qed


theorem predict_leaves_stored_arrays_witness:
  "in_store demo_store demo_refs demo_fitted
   \<and> predict_st demo_fitted demo_refs 2 None None demo_store =
       (Inr \<lparr>r_buf = 2, r_index = RangeIndex 3 5\<rparr>,
        demo_store @ [[Some 4, Some 4], [Some 4], [Some 4], [Some 4], [Some 4], [Some 4], [Some 4]])
   \<and> in_store
        (demo_store @ [[Some 4, Some 4], [Some 4], [Some 4], [Some 4], [Some 4], [Some 4], [Some 4]])
        demo_refs demo_fitted
   \<and> predict demo_fitted 2 None None = Inr \<lparr>s_values = [Some 4, Some 4], s_index = RangeIndex 3 5\<rparr>"
proof -
  let ?h' = "demo_store @ [[Some 4, Some 4], [Some 4], [Some 4], [Some 4], [Some 4], [Some 4], [Some 4]]"
  have a: "in_store demo_store demo_refs demo_fitted"
    by (simp add: in_store_def demo_store_def demo_refs_def demo_fitted_def deref_def)
  have b: "\<forall>r. (None :: series_ref option) = Some r \<longrightarrow> r_buf r < length demo_store" by simp
  have c: "predict_st demo_fitted demo_refs 2 None None demo_store =
             (Inr \<lparr>r_buf = 2, r_index = RangeIndex 3 5\<rparr>, ?h')"
    by (simp add: predict_st_def predict_window_st_def predict_step_st_def alloc_def Let_def
        demo_store_def demo_refs_def demo_fitted_def sum_regressor_def regressor_predict_def
        py_get_def slice_from_def slice_pos_def eval_nat_numeral)
  note R = predict_leaves_stored_arrays [OF a b c]
  have d: "in_store ?h' demo_refs demo_fitted" by (rule R [THEN conjunct1])
  have "map_sum id (deref ?h') (Inr \<lparr>r_buf = 2, r_index = RangeIndex 3 5\<rparr>) =
          predict demo_fitted 2 (map_option (\<lambda>r. Series (deref demo_store r)) None) None"
    by (rule R [THEN conjunct2, THEN conjunct2, THEN conjunct2])
  then have e: "predict demo_fitted 2 None None =
                  Inr \<lparr>s_values = [Some 4, Some 4], s_index = RangeIndex 3 5\<rparr>"
    by (simp add: deref_def demo_store_def)
  show ?thesis by (intro conjI) (rule a c d e)+
qed

section \<open>Properties of \<^verbatim>\<open>predict_interval\<close>\<close>


























end
